theory Spec2Isabelle
  imports Complex_Main
begin

section \<open>Values shared by the two modules\<close>

text \<open>
  Values loaded from the JSON configuration. A Python dict with string keys is a
  partial map at the top level (\<open>config\<close>, \<open>variables_to_downscale\<close>,
  \<open>custom_lapse_rates\<close>) and an association list when it is nested inside a value.
\<close>

datatype json =
    JNull
  | JBool bool
  | JNum real
  | JStr string
  | JArr "json list"
  | JObj "(string \<times> json) list"

text \<open>The exceptions the modelled code can raise; the string is the message's subject.\<close>

datatype error =
    ValueError string
  | IndexError
  | KeyError string
  | AttributeError
  | TypeError
  | ZeroDivisionError
  | RasterioIOError string
  | FileNotFoundError string
  | ExternalError string

section \<open>utils.py: parse_yes_no_flag\<close>

text \<open>
  \<open>if value == "y": return True / elif value == "n": return False / else: raise ValueError\<close>.
  The argument is whatever the configuration holds, so it is a \<open>json\<close> value; only the
  string \<open>"y"\<close> compares equal to \<open>"y"\<close>.
\<close>

definition parse_yes_no_flag :: "json \<Rightarrow> string \<Rightarrow> error + bool" where
  "parse_yes_no_flag v var_name =
     (if v = JStr ''y'' then Inr True
      else if v = JStr ''n'' then Inr False
      else Inl (ValueError var_name))"

section \<open>Paths and strings\<close>

text \<open>\<open>posixpath.join\<close> for two components, and its fold over several.\<close>

definition join2 :: "string \<Rightarrow> string \<Rightarrow> string" where
  "join2 p b =
     (if b \<noteq> [] \<and> hd b = CHR ''/'' then b
      else if p = [] \<or> last p = CHR ''/'' then p @ b
      else p @ ''/'' @ b)"

definition path_join :: "string \<Rightarrow> string list \<Rightarrow> string" where
  "path_join a ps = foldl join2 a ps"

text \<open>\<open>os.path.basename\<close>: what follows the last slash.\<close>

definition basename :: "string \<Rightarrow> string" where
  "basename p = rev (takeWhile (\<lambda>ch. ch \<noteq> CHR ''/'') (rev p))"

text \<open>\<open>str.split(sep)\<close> for a one-character separator.\<close>

fun split_on :: "char \<Rightarrow> string \<Rightarrow> string list" where
  "split_on sep [] = [[]]"
| "split_on sep (ch # cs) =
     (if ch = sep then [] # split_on sep cs
      else (case split_on sep cs of
              [] \<Rightarrow> [[ch]]
            | w # ws \<Rightarrow> (ch # w) # ws))"

text \<open>Indexing a list with a non-negative index; out of range raises.\<close>

definition py_index :: "'a list \<Rightarrow> nat \<Rightarrow> error + 'a" where
  "py_index xs i = (if i < length xs then Inr (xs ! i) else Inl IndexError)"

text \<open>\<open>d.get(key, default)\<close> on a dict.\<close>

definition dict_get :: "(string \<rightharpoonup> 'v) \<Rightarrow> string \<Rightarrow> 'v \<Rightarrow> 'v" where
  "dict_get d k dflt = (case d k of None \<Rightarrow> dflt | Some v \<Rightarrow> v)"

section \<open>main_micromet.py: run_month\<close>

text \<open>
  The five downscaling operators live in a module that is not part of the sources at hand.
  Each invocation is recorded as a \<open>call\<close> with the arguments \<open>run_month\<close> passes, and the
  operators themselves are a parameter \<open>exec\<close>: a call transforms the outside world and may
  raise. The world is left abstract.
\<close>

datatype call =
    Downscale_Temperature string string string "json option" "json option"
  | Downscale_SW string string string real real "json option" "json option"
  | Downscale_RH string string string "json option" "json option"
  | Downscale_Precipitation string string string "json option" "json option"
  | Downscale_Wind string string string real "json option"

type_synonym 'w action = "'w \<Rightarrow> error option \<times> 'w"

text \<open>Statements in sequence: an exception in the first skips the second.\<close>

definition seq :: "'w action \<Rightarrow> 'w action \<Rightarrow> 'w action" where
  "seq m1 m2 w = (case m1 w of (Some e, w') \<Rightarrow> (Some e, w') | (None, w') \<Rightarrow> m2 w')"

text \<open>
  \<open>custom_lapse_rates.get(key, {}).get("monthly")\<close>: the inner \<open>get\<close> exists on a dict
  only, and returns Python's \<open>None\<close> for a missing key.
\<close>

definition monthly_override :: "(string \<rightharpoonup> json) \<Rightarrow> string \<Rightarrow> error + json option" where
  "monthly_override custom_lapse_rates k =
     (case dict_get custom_lapse_rates k (JObj []) of
        JObj kvs \<Rightarrow> Inr (map_of kvs ''monthly'')
      | _ \<Rightarrow> Inl AttributeError)"

text \<open>
  One block of \<open>run_month\<close>:
  \<open>if parse_yes_no_flag(variables_to_downscale.get(key, "n"), key): operator(...)\<close>.
  The operator's arguments are evaluated once the flag is known to be set.
\<close>

definition flag_enabled :: "(string \<rightharpoonup> json) \<Rightarrow> string \<Rightarrow> error + bool" where
  "flag_enabled variables_to_downscale k =
     parse_yes_no_flag (dict_get variables_to_downscale k (JStr ''n'')) k"

definition when_enabled ::
  "(call \<Rightarrow> 'w action) \<Rightarrow> (string \<rightharpoonup> json) \<Rightarrow> string \<Rightarrow> error + call \<Rightarrow> 'w action" where
  "when_enabled exec variables_to_downscale k mk w =
     (case flag_enabled variables_to_downscale k of
        Inl e \<Rightarrow> (Some e, w)
      | Inr False \<Rightarrow> (None, w)
      | Inr True \<Rightarrow> (case mk of Inl e \<Rightarrow> (Some e, w) | Inr c \<Rightarrow> exec c w))"

definition with_override ::
  "(string \<rightharpoonup> json) \<Rightarrow> string \<Rightarrow> (json option \<Rightarrow> call) \<Rightarrow> error + call" where
  "with_override custom_lapse_rates k mk =
     (case monthly_override custom_lapse_rates k of Inl e \<Rightarrow> Inl e | Inr v \<Rightarrow> Inr (mk v))"

text \<open>The month and year tokens of the file name: fields 2 and 1 of the base name.\<close>

definition month_year :: "string \<Rightarrow> error + string \<times> string" where
  "month_year curr_climate_file =
     (case py_index (split_on CHR ''_'' (basename curr_climate_file)) 2 of
        Inl e \<Rightarrow> Inl e
      | Inr month \<Rightarrow>
          (case py_index (split_on CHR ''_'' (basename curr_climate_file)) 1 of
             Inl e \<Rightarrow> Inl e
           | Inr year \<Rightarrow> Inr (month, year)))"

definition variable_keys :: "string list" where
  "variable_keys = [''t_air'', ''sw_radiation'', ''relative_humidity'', ''precipitation'', ''wind'']"

definition run_month ::
  "(call \<Rightarrow> 'w action) \<Rightarrow> string \<Rightarrow> string \<Rightarrow> string \<Rightarrow> (string \<rightharpoonup> json) \<Rightarrow>
   (string \<rightharpoonup> json) \<Rightarrow> json option \<Rightarrow> 'w action" where
  "run_month exec curr_climate_file dem_path working_directory variables_to_downscale
     custom_lapse_rates dem_nodata w =
     (case month_year curr_climate_file of
        Inl e \<Rightarrow> (Some e, w)
      | Inr _ \<Rightarrow>
         seq (when_enabled exec variables_to_downscale ''t_air''
                (with_override custom_lapse_rates ''temperature''
                   (\<lambda>lr. Downscale_Temperature dem_path curr_climate_file
                           (path_join working_directory [''outputs'', ''Temperature'']) lr dem_nodata)))
        (seq (when_enabled exec variables_to_downscale ''sw_radiation''
                (with_override custom_lapse_rates ''temperature''
                   (\<lambda>lr. Downscale_SW dem_path curr_climate_file
                           (path_join working_directory [''outputs'', ''SW'']) 3000 1370 lr dem_nodata)))
        (seq (when_enabled exec variables_to_downscale ''relative_humidity''
                (with_override custom_lapse_rates ''temperature''
                   (\<lambda>lr. Downscale_RH dem_path curr_climate_file
                           (path_join working_directory [''outputs'', ''RH'']) lr dem_nodata)))
        (seq (when_enabled exec variables_to_downscale ''precipitation''
                (with_override custom_lapse_rates ''precipitation''
                   (\<lambda>g. Downscale_Precipitation dem_path curr_climate_file
                           (path_join working_directory [''outputs'', ''P'']) g dem_nodata)))
             (when_enabled exec variables_to_downscale ''wind''
                (Inr (Downscale_Wind dem_path curr_climate_file
                        (path_join working_directory [''outputs'', ''Wind'']) (1/2) dem_nodata))))))
         w)"

text \<open>An operator environment that records every call it receives and never fails.\<close>

definition exec_log :: "call \<Rightarrow> call list action" where
  "exec_log c w = (None, w @ [c])"

section \<open>utils.py: rasters\<close>

text \<open>
  A raster band is a two-dimensional array of floats, row by row. A cell is \<open>None\<close> where
  the array holds NaN. Arithmetic on defined cells is the arithmetic of the reals: rounding
  and overflow of the 32-bit floats are not part of the model.
\<close>

type_synonym cell = "real option"
type_synonym array2 = "cell list list"

text \<open>The six coefficients of the affine geotransform, named as rasterio names them.\<close>

record affine =
  aff_a :: real
  aff_b :: real
  aff_c :: real
  aff_d :: real
  aff_e :: real
  aff_f :: real

definition nrows :: "'a list list \<Rightarrow> nat" where
  "nrows arr = length arr"

definition ncols :: "'a list list \<Rightarrow> nat" where
  "ncols arr = (case arr of [] \<Rightarrow> 0 | r # _ \<Rightarrow> length r)"

text \<open>An array of the given shape: every row has the same length.\<close>

definition is_array :: "nat \<Rightarrow> nat \<Rightarrow> 'a list list \<Rightarrow> bool" where
  "is_array h w arr \<longleftrightarrow> length arr = h \<and> list_all (\<lambda>r. length r = w) arr"

text \<open>
  Python slicing \<open>xs[lo:hi]\<close>: a negative bound counts from the end, and bounds are
  clipped to the length.
\<close>

definition norm_index :: "int \<Rightarrow> nat \<Rightarrow> nat" where
  "norm_index i n = (if i < 0 then nat (max 0 (int n + i)) else min (nat i) n)"

definition slice :: "int \<Rightarrow> int \<Rightarrow> 'a list \<Rightarrow> 'a list" where
  "slice lo hi xs =
     take (norm_index hi (length xs) - norm_index lo (length xs))
          (drop (norm_index lo (length xs)) xs)"

definition slice2 :: "int \<Rightarrow> int \<Rightarrow> int \<Rightarrow> int \<Rightarrow> 'a list list \<Rightarrow> 'a list list" where
  "slice2 r0 r1 c0 c1 arr = map (slice c0 c1) (slice r0 r1 arr)"

text \<open>\<open>np.pad(arr, n, mode='edge')\<close>: every axis is extended by copies of its border.\<close>

definition pad_edge1 :: "nat \<Rightarrow> 'a list \<Rightarrow> 'a list" where
  "pad_edge1 n xs = replicate n (hd xs) @ xs @ replicate n (last xs)"

definition pad_edge :: "nat \<Rightarrow> 'a list list \<Rightarrow> 'a list list" where
  "pad_edge n arr = pad_edge1 n (map (pad_edge1 n) arr)"

text \<open>Elementwise float arithmetic; NaN in an operand gives NaN.\<close>

definition fl2 :: "(real \<Rightarrow> real \<Rightarrow> real) \<Rightarrow> cell \<Rightarrow> cell \<Rightarrow> cell" where
  "fl2 f x y = (case x of None \<Rightarrow> None | Some u \<Rightarrow> (case y of None \<Rightarrow> None | Some v \<Rightarrow> Some (f u v)))"

definition arr_map :: "('a \<Rightarrow> 'b) \<Rightarrow> 'a list list \<Rightarrow> 'b list list" where
  "arr_map f arr = map (map f) arr"

definition arr_map2 :: "('a \<Rightarrow> 'b \<Rightarrow> 'c) \<Rightarrow> 'a list list \<Rightarrow> 'b list list \<Rightarrow> 'c list list" where
  "arr_map2 f xs ys = map2 (map2 f) xs ys"

definition arr_sub :: "array2 \<Rightarrow> array2 \<Rightarrow> array2" where
  "arr_sub = arr_map2 (fl2 (\<lambda>u v. u - v))"

definition arr_add :: "array2 \<Rightarrow> array2 \<Rightarrow> array2" where
  "arr_add = arr_map2 (fl2 (\<lambda>u v. u + v))"

definition arr_scale :: "real \<Rightarrow> array2 \<Rightarrow> array2" where
  "arr_scale k = arr_map (map_option (\<lambda>v. k * v))"

definition arr_div :: "array2 \<Rightarrow> real \<Rightarrow> array2" where
  "arr_div arr s = arr_map (map_option (\<lambda>v. v / s)) arr"

definition arr_abs :: "array2 \<Rightarrow> array2" where
  "arr_abs = arr_map (map_option abs)"

section \<open>utils.py: compute_topographic_curvature, the numerical part\<close>

text \<open>\<open>dem[dem == dem_nodata] = np.nan\<close>, when a sentinel is given.\<close>

definition mask_nodata :: "real option \<Rightarrow> array2 \<Rightarrow> array2" where
  "mask_nodata dem_nodata dem =
     (case dem_nodata of
        None \<Rightarrow> dem
      | Some nd \<Rightarrow> arr_map (\<lambda>x. if x = Some nd then None else x) dem)"

text \<open>Python's \<open>round\<close> on a float: to the nearest integer, a tie to the even one.\<close>

definition py_round :: "real \<Rightarrow> int" where
  "py_round x =
     (let f = \<lfloor>x\<rfloor>; d = x - of_int f
      in if d < 1/2 then f else if 1/2 < d then f + 1 else if even f then f else f + 1)"

text \<open>
  \<open>deltax = transform.a; deltay = -transform.e; deltaxy = 0.5 * (deltax + deltay)\<close> and
  \<open>inc = max(1, int(round(L / deltaxy)))\<close>; the division raises on a zero divisor.
\<close>

definition mean_cell_size :: "affine \<Rightarrow> real" where
  "mean_cell_size transform = 0.5 * (aff_a transform + - aff_e transform)"

definition sample_offset :: "real \<Rightarrow> affine \<Rightarrow> error + int" where
  "sample_offset L transform =
     (if mean_cell_size transform = 0 then Inl ZeroDivisionError
      else Inr (max 1 (py_round (L / mean_cell_size transform))))"

text \<open>
  The offset as the specification words it: the mean cell size is the average of the
  absolute pixel width and the absolute pixel height.
\<close>

definition spec_mean_cell_size :: "affine \<Rightarrow> real" where
  "spec_mean_cell_size transform = (\<bar>aff_a transform\<bar> + \<bar>aff_e transform\<bar>) / 2"

definition spec_sample_offset :: "real \<Rightarrow> affine \<Rightarrow> int" where
  "spec_sample_offset L transform = max 1 (py_round (L / spec_mean_cell_size transform))"

fun minimum :: "nat list \<Rightarrow> nat" where
  "minimum [] = 0"
| "minimum [x] = x"
| "minimum (x # xs) = min x (minimum xs)"

text \<open>
  From the padding to the masking of the centre: the nine shifted views of the padded DEM,
  their crop to the common shape, the two stencil terms and their sum.
\<close>

definition raw_curvature :: "array2 \<Rightarrow> int \<Rightarrow> real \<Rightarrow> array2" where
  "raw_curvature dem inc deltaxy =
     (let dem_pad = pad_edge (nat inc) dem;
          z = slice2 inc (- inc) inc (- inc) dem_pad;
          zW = slice2 inc (- inc) (inc - inc) (- 2 * inc) dem_pad;
          zE = slice2 inc (- inc) (inc + inc) (2 * inc + inc) dem_pad;
          zS = slice2 (inc + inc) (2 * inc + inc) inc (- inc) dem_pad;
          zN = slice2 (inc - inc) (- 2 * inc) inc (- inc) dem_pad;
          zSW = slice2 (inc + inc) (2 * inc + inc) (inc - inc) (- 2 * inc) dem_pad;
          zNE = slice2 (inc - inc) (- 2 * inc) (inc + inc) (2 * inc + inc) dem_pad;
          zNW = slice2 (inc - inc) (- 2 * inc) (inc - inc) (- 2 * inc) dem_pad;
          zSE = slice2 (inc + inc) (2 * inc + inc) (inc + inc) (2 * inc + inc) dem_pad;
          views = [z, zW, zE, zS, zN, zSW, zNE, zNW, zSE];
          h = minimum (map nrows views);
          w = minimum (map ncols views);
          crop = (\<lambda>arr. slice2 0 (int h) 0 (int w) arr);
          c_diag = arr_div
                     (arr_sub (arr_sub (arr_sub (arr_sub (arr_scale 4 (crop z)) (crop zSW))
                        (crop zNE)) (crop zNW)) (crop zSE))
                     (sqrt 2 * 16 * of_int inc * deltaxy);
          c_cross = arr_div
                     (arr_sub (arr_sub (arr_sub (arr_sub (arr_scale 4 (crop z)) (crop zW))
                        (crop zE)) (crop zN)) (crop zS))
                     (16 * of_int inc * deltaxy);
          curvature = arr_add c_diag c_cross
      in arr_map2 (\<lambda>zc cv. if zc = None then None else cv) (crop z) curvature)"

text \<open>
  \<open>np.nanmax\<close>: the largest entry that is not NaN, NaN when every entry is NaN, an
  exception on an array without entries.
\<close>

definition defined_values :: "array2 \<Rightarrow> real list" where
  "defined_values arr = concat (map (\<lambda>x. case x of None \<Rightarrow> [] | Some v \<Rightarrow> [v]) (concat arr))"

definition nanmax :: "array2 \<Rightarrow> error + cell" where
  "nanmax arr =
     (if concat arr = [] then Inl (ValueError ''zero-size array'')
      else (case defined_values arr of
              [] \<Rightarrow> Inr None
            | v # vs \<Rightarrow> Inr (Some (fold max vs v))))"

text \<open>
  \<open>max(0.001, m)\<close> keeps its first argument unless the second is greater; a comparison
  with NaN is false.
\<close>

definition curve_max_of :: "cell \<Rightarrow> real" where
  "curve_max_of m = (case m of None \<Rightarrow> 0.001 | Some v \<Rightarrow> if 0.001 < v then v else 0.001)"

text \<open>
  \<open>full[r0:r1, c0:c1] = block\<close>: the block must have the shape of the target region, up
  to broadcasting of an axis of length one.
\<close>

definition assign_block ::
  "array2 \<Rightarrow> int \<Rightarrow> int \<Rightarrow> int \<Rightarrow> int \<Rightarrow> array2 \<Rightarrow> error + array2" where
  "assign_block full r0 r1 c0 c1 block =
     (let ra = norm_index r0 (nrows full); rb = max ra (norm_index r1 (nrows full));
          ca = norm_index c0 (ncols full); cb = max ca (norm_index c1 (ncols full));
          h = nrows block; w = ncols block
      in if (h = rb - ra \<or> h = 1) \<and> (w = cb - ca \<or> w = 1) then
           Inr (map (\<lambda>r. map (\<lambda>c.
                  if ra \<le> r \<and> r < rb \<and> ca \<le> c \<and> c < cb
                  then block ! (if h = 1 then 0 else r - ra) ! (if w = 1 then 0 else c - ca)
                  else full ! r ! c) [0..<ncols full]) [0..<nrows full])
         else Inl (ValueError ''could not broadcast input array''))"

text \<open>
  Lines 137 to 178 of utils.py: the raster that \<open>compute_topographic_curvature\<close> writes,
  from the band read from the DEM file, its geotransform, the length scale and the optional
  nodata sentinel.
\<close>

definition curvature_raster :: "array2 \<Rightarrow> affine \<Rightarrow> real \<Rightarrow> real option \<Rightarrow> error + array2" where
  "curvature_raster dem0 transform L dem_nodata =
     (let dem = mask_nodata dem_nodata dem0; ny = nrows dem; nx = ncols dem
      in case sample_offset L transform of
           Inl e \<Rightarrow> Inl e
         | Inr inc \<Rightarrow>
            if ny = 0 \<or> nx = 0 then Inl (ValueError ''cannot pad an empty axis'')
            else
              (let curvature = raw_curvature dem inc (mean_cell_size transform)
               in (case nanmax (arr_abs curvature) of
                     Inl e \<Rightarrow> Inl e
                   | Inr m \<Rightarrow>
                      (let curve_max = curve_max_of m;
                           curvature' = arr_div curvature (2 * curve_max);
                           full_curv = replicate ny (replicate nx None)
                       in assign_block full_curv inc (inc + int (nrows curvature'))
                            inc (inc + int (ncols curvature')) curvature'))))"

section \<open>Files\<close>

text \<open>
  A GeoTIFF as rasterio presents it: the first band and the metadata that
  \<open>compute_topographic_curvature\<close> copies to its output.
\<close>

record geotiff =
  band :: array2
  transform :: affine
  crs :: string
  dtype :: string
  band_count :: nat
  meta_nodata :: "real option"

text \<open>
  The dataset that \<open>write_downscaled_to_netcdf\<close> assembles: one array per variable with
  its dimension names, its three coordinates and its attributes, and the georeferencing
  written by the \<open>rio\<close> accessor. Timestamps are seconds since the epoch.
\<close>

type_synonym timestamp = int

record data_array =
  da_data :: "array2 list"
  da_dims :: "string list"
  da_time :: "timestamp list"
  da_y :: "real list"
  da_x :: "real list"
  da_units :: string
  da_description :: string

record dataset =
  ds_vars :: "(string \<times> data_array) list"
  ds_transform :: "affine option"
  ds_crs :: "string option"

datatype content = GeoTiff geotiff | NetCDF dataset

text \<open>
  The file system: regular files with their content, and the set of directories. Failures
  of the operating system (permissions, a regular file where a directory is wanted) are
  outside the model.
\<close>

record filesystem =
  fs_files :: "string \<rightharpoonup> content"
  fs_dirs :: "string set"

definition path_exists :: "filesystem \<Rightarrow> string \<Rightarrow> bool" where
  "path_exists fs p \<longleftrightarrow> p \<in> dom (fs_files fs) \<or> p \<in> fs_dirs fs"

text \<open>
  \<open>os.makedirs(p, exist_ok=True)\<close> creates \<open>p\<close> and every missing directory above it:
  the prefixes of \<open>p\<close> that end before a slash, and \<open>p\<close> itself.
\<close>

fun dir_chain :: "string \<Rightarrow> string \<Rightarrow> string list" where
  "dir_chain acc [] = [acc]"
| "dir_chain acc (ch # cs) =
     (if ch = CHR ''/'' \<and> acc \<noteq> [] then acc # dir_chain (acc @ [ch]) cs
      else dir_chain (acc @ [ch]) cs)"

definition makedirs :: "string \<Rightarrow> filesystem \<Rightarrow> filesystem" where
  "makedirs p fs = fs\<lparr>fs_dirs := fs_dirs fs \<union> set (dir_chain [] p)\<rparr>"

text \<open>\<open>os.path.dirname\<close>: up to the last slash, without trailing slashes unless it is the root.\<close>

definition dirname :: "string \<Rightarrow> string" where
  "dirname p =
     (let head = rev (dropWhile (\<lambda>ch. ch \<noteq> CHR ''/'') (rev p))
      in if head \<noteq> [] \<and> \<not> list_all (\<lambda>ch. ch = CHR ''/'') head
         then rev (dropWhile (\<lambda>ch. ch = CHR ''/'') (rev head))
         else head)"

section \<open>utils.py: compute_topographic_curvature\<close>

definition output_dir_of :: "string \<Rightarrow> string" where
  "output_dir_of working_directory = path_join working_directory [''inputs'', ''dem'']"

definition curvature_path_of :: "string \<Rightarrow> string" where
  "curvature_path_of working_directory =
     path_join (output_dir_of working_directory) [''curvature.tif'']"

text \<open>
  The whole function: the output directory is made, an existing output short-circuits, the
  DEM is read, the raster of \<open>curvature_raster\<close> is computed and written with the DEM's
  metadata, updated to one float32 band. The result is the path, or the exception.
\<close>

definition compute_topographic_curvature ::
  "filesystem \<Rightarrow> string \<Rightarrow> string \<Rightarrow> real \<Rightarrow> real option \<Rightarrow> (error + string) \<times> filesystem" where
  "compute_topographic_curvature fs dem_path working_directory L dem_nodata =
     (let output_dir = output_dir_of working_directory;
          fs1 = makedirs output_dir fs;
          curvature_path = path_join output_dir [''curvature.tif'']
      in if path_exists fs1 curvature_path then (Inr curvature_path, fs1)
         else
           (case fs_files fs1 dem_path of
              Some (GeoTiff src) \<Rightarrow>
                (case curvature_raster (band src) (transform src) L dem_nodata of
                   Inl e \<Rightarrow> (Inl e, fs1)
                 | Inr full_curv \<Rightarrow>
                     (Inr curvature_path,
                      fs1\<lparr>fs_files := (fs_files fs1)(curvature_path \<mapsto>
                            GeoTiff (src\<lparr>band := full_curv, dtype := ''float32'',
                                          band_count := 1\<rparr>))\<rparr>))
            | _ \<Rightarrow> (Inl (RasterioIOError dem_path), fs1)))"

section \<open>utils.py: write_downscaled_to_netcdf\<close>

text \<open>
  \<open>np.concatenate(data_list, axis=0)\<close> needs at least one array, and the arrays must
  agree in every axis but the first.
\<close>

definition np_concatenate :: "array2 list list \<Rightarrow> error + array2 list" where
  "np_concatenate data_list =
     (if data_list = [] then Inl (ValueError ''need at least one array to concatenate'')
      else (case concat data_list of
              [] \<Rightarrow> Inr []
            | f0 # fs \<Rightarrow>
                if list_all (is_array (nrows f0) (ncols f0)) (f0 # fs) then Inr (f0 # fs)
                else Inl (ValueError ''all the input array dimensions must match'')))"

text \<open>
  \<open>xr.DataArray(data, dims, coords, attrs)\<close>: the length of each coordinate must be the
  size of its dimension.
\<close>

definition make_data_array ::
  "array2 list \<Rightarrow> timestamp list \<Rightarrow> real list \<Rightarrow> real list \<Rightarrow> string \<Rightarrow> string \<Rightarrow>
   error + data_array" where
  "make_data_array data_stack time_list y_coords x_coords units description =
     (if length data_stack = length time_list \<and>
         list_all (is_array (length y_coords) (length x_coords)) data_stack
      then Inr \<lparr>da_data = data_stack, da_dims = [''time'', ''y'', ''x''], da_time = time_list,
                da_y = y_coords, da_x = x_coords, da_units = units,
                da_description = description\<rparr>
      else Inl (ValueError ''conflicting sizes for dimension''))"

text \<open>The loop over \<open>variables_dict.items()\<close>; the first exception ends it.\<close>

fun build_dataset_vars ::
  "(string \<times> array2 list list \<times> string \<times> string) list \<Rightarrow> timestamp list \<Rightarrow> real list \<Rightarrow>
   real list \<Rightarrow> error + (string \<times> data_array) list" where
  "build_dataset_vars [] time_list y_coords x_coords = Inr []"
| "build_dataset_vars ((var_name, data_list, units, description) # rest) time_list y_coords x_coords =
     (case np_concatenate data_list of
        Inl e \<Rightarrow> Inl e
      | Inr data_stack \<Rightarrow>
         (case make_data_array data_stack time_list y_coords x_coords units description of
            Inl e \<Rightarrow> Inl e
          | Inr da \<Rightarrow>
             (case build_dataset_vars rest time_list y_coords x_coords of
                Inl e \<Rightarrow> Inl e
              | Inr das \<Rightarrow> Inr ((var_name, da) # das))))"

definition write_downscaled_to_netcdf ::
  "filesystem \<Rightarrow> (string \<times> array2 list list \<times> string \<times> string) list \<Rightarrow> timestamp list \<Rightarrow>
   nat \<times> nat \<Rightarrow> affine \<Rightarrow> string \<Rightarrow> string \<Rightarrow> error option \<times> filesystem" where
  "write_downscaled_to_netcdf fs variables_dict time_list dem_shape dem_transform dem_crs out_nc =
     (case dem_shape of (height, width) \<Rightarrow>
      let x_coords = map (\<lambda>i. real i * aff_a dem_transform + aff_c dem_transform
                                + aff_a dem_transform / 2) [0..<width];
          y_coords = map (\<lambda>j. real j * aff_e dem_transform + aff_f dem_transform
                                + aff_e dem_transform / 2) [0..<height]
      in (case build_dataset_vars variables_dict time_list y_coords x_coords of
            Inl e \<Rightarrow> (Some e, fs)
          | Inr dataset_vars \<Rightarrow>
             (let ds_out = \<lparr>ds_vars = dataset_vars, ds_transform = Some dem_transform,
                            ds_crs = Some dem_crs\<rparr>
              in if dirname out_nc = [] then (Some (FileNotFoundError []), fs)
                 else
                   (let fs1 = makedirs (dirname out_nc) fs
                    in (None, fs1\<lparr>fs_files := (fs_files fs1)(out_nc \<mapsto> NetCDF ds_out)\<rparr>)))))"

section \<open>main_micromet.py: run_micropezzomet up to the curvature\<close>

text \<open>
  Lines 52 to 86: the configuration is read, the folders are made, the climate data is
  downloaded when no archive is given, slope and aspect are requested from \<open>gdaldem\<close>, and
  the curvature is computed. The download and the shell are collaborators outside the
  sources at hand and are parameters. The parallel fan-out that follows is not modelled.
  \<open>working_directory\<close> and \<open>dem_file\<close> are taken to be strings; any other value is reported
  as a TypeError where it is read.
\<close>

record era5_request =
  req_start_date :: json
  req_end_date :: json
  req_refrence_area_path :: string
  req_output_dir :: string
  req_PAT :: json
  req_jobs_download :: json
  req_aggregate_daily :: bool

definition config_item :: "(string \<rightharpoonup> json) \<Rightarrow> string \<Rightarrow> error + json" where
  "config_item config k = (case config k of None \<Rightarrow> Inl (KeyError k) | Some v \<Rightarrow> Inr v)"

definition config_path_item :: "(string \<rightharpoonup> json) \<Rightarrow> string \<Rightarrow> error + string" where
  "config_path_item config k =
     (case config k of
        None \<Rightarrow> Inl (KeyError k)
      | Some (JStr s) \<Rightarrow> Inr s
      | Some _ \<Rightarrow> Inl TypeError)"

text \<open>\<open>config.get("dem_nodata", None)\<close>; JSON's null is Python's None.\<close>

definition config_dem_nodata :: "(string \<rightharpoonup> json) \<Rightarrow> json option" where
  "config_dem_nodata config =
     (case config ''dem_nodata'' of None \<Rightarrow> None | Some JNull \<Rightarrow> None | Some v \<Rightarrow> Some v)"

definition create_full_micromet_folder_structure :: "string \<Rightarrow> filesystem \<Rightarrow> filesystem" where
  "create_full_micromet_folder_structure base_path fs =
     fold (\<lambda>folder. makedirs (path_join base_path [folder]))
       [''inputs/climate'', ''inputs/dem'', ''outputs''] fs"

text \<open>A string between double quotes, as the command lines have them.\<close>

definition quoted :: "string \<Rightarrow> string" where
  "quoted s = CHR 0x22 # s @ [CHR 0x22]"

definition compute_slope_aspect ::
  "(string \<Rightarrow> filesystem \<Rightarrow> int \<times> filesystem) \<Rightarrow> string \<Rightarrow> string \<Rightarrow> filesystem \<Rightarrow>
   (string \<times> string) \<times> filesystem" where
  "compute_slope_aspect os_system dem_path working_directory fs =
     (let output_dir = path_join working_directory [''inputs'', ''dem''];
          fs1 = makedirs output_dir fs;
          slope_path = path_join output_dir [''slope.tif''];
          aspect_path = path_join output_dir [''aspect.tif''];
          slope_cmd = ''gdaldem slope '' @ quoted dem_path @ '' '' @ quoted slope_path @ '' -of GTiff'';
          aspect_cmd = ''gdaldem aspect '' @ quoted dem_path @ '' '' @ quoted aspect_path @ '' -of GTiff'';
          (slope_status, fs2) = os_system slope_cmd fs1;
          (aspect_status, fs3) = os_system aspect_cmd fs2
      in ((slope_path, aspect_path), fs3))"

text \<open>
  Lines 54 to 84: what happens before the curvature call. The result is the DEM path and
  the working directory, or the exception.
\<close>

definition bind_err :: "error + 'a \<Rightarrow> ('a \<Rightarrow> (error + 'b) \<times> 's) \<Rightarrow> 's \<Rightarrow> (error + 'b) \<times> 's" where
  "bind_err m f s = (case m of Inl e \<Rightarrow> (Inl e, s) | Inr x \<Rightarrow> f x)"

definition prepare_inputs ::
  "(era5_request \<Rightarrow> filesystem \<Rightarrow> error option \<times> filesystem) \<Rightarrow>
   (string \<Rightarrow> filesystem \<Rightarrow> int \<times> filesystem) \<Rightarrow> (string \<rightharpoonup> json) \<Rightarrow> filesystem \<Rightarrow>
   (error + string \<times> string) \<times> filesystem" where
  "prepare_inputs get_era5 os_system config fs =
     (let dem_nodata = config_dem_nodata config in
      bind_err (config_path_item config ''working_directory'') (\<lambda>working_directory.
      bind_err (config_item config ''start_date'') (\<lambda>start_date.
      bind_err (config_item config ''end_date'') (\<lambda>end_date.
      bind_err (config_path_item config ''dem_file'') (\<lambda>dem_path.
      bind_err (config_item config ''era_file'') (\<lambda>era_path.
      bind_err (config_item config ''earthdatahub_pat'') (\<lambda>pat_token.
      bind_err (config_item config ''time_step'') (\<lambda>time_step.
      bind_err (config_item config ''jobs_parallel_downscale'') (\<lambda>jobs_downscaling.
      bind_err (config_item config ''jobs_parallel_download'') (\<lambda>jobs_download.
        let fs1 = create_full_micromet_folder_structure working_directory fs;
            (downloaded, fs2) =
              (if era_path = JNull
               then get_era5 \<lparr>req_start_date = start_date, req_end_date = end_date,
                      req_refrence_area_path = dem_path,
                      req_output_dir = path_join working_directory [''inputs/climate''],
                      req_PAT = pat_token, req_jobs_download = jobs_download,
                      req_aggregate_daily = (time_step = JStr ''24H'')\<rparr> fs1
               else (None, fs1))
        in (case downloaded of
              Some e \<Rightarrow> (Inl e, fs2)
            | None \<Rightarrow>
               (case compute_slope_aspect os_system dem_path working_directory fs2 of
                  (_, fs3) \<Rightarrow> (Inr (dem_path, working_directory), fs3))))
        fs) fs) fs) fs) fs) fs) fs) fs) fs)"

text \<open>
  Line 86: \<open>compute_topographic_curvature(dem_path, working_directory)\<close>, with the defaults
  \<open>L=1000\<close> and \<open>dem_nodata=None\<close> of the signature.
\<close>

definition run_micropezzomet_terrain ::
  "(era5_request \<Rightarrow> filesystem \<Rightarrow> error option \<times> filesystem) \<Rightarrow>
   (string \<Rightarrow> filesystem \<Rightarrow> int \<times> filesystem) \<Rightarrow> (string \<rightharpoonup> json) \<Rightarrow> filesystem \<Rightarrow>
   error option \<times> filesystem" where
  "run_micropezzomet_terrain get_era5 os_system config fs =
     (case prepare_inputs get_era5 os_system config fs of
        (Inl e, fs3) \<Rightarrow> (Some e, fs3)
      | (Inr (dem_path, working_directory), fs3) \<Rightarrow>
          (case compute_topographic_curvature fs3 dem_path working_directory 1000 None of
             (Inl e, fs4) \<Rightarrow> (Some e, fs4)
           | (Inr curvature_path, fs4) \<Rightarrow> (None, fs4)))"

text \<open>
  The cell that a sample at row \<open>r\<close> and column \<open>c\<close> reads once the edges are replicated:
  an index outside the grid is moved to the nearest row or column of the grid.
\<close>

definition edge_clamp :: "nat \<Rightarrow> int \<Rightarrow> nat" where
  "edge_clamp n x = nat (min (int n - 1) (max 0 x))"

definition sampled :: "array2 \<Rightarrow> int \<Rightarrow> int \<Rightarrow> cell" where
  "sampled dem r c = dem ! edge_clamp (nrows dem) r ! edge_clamp (ncols dem) c"

section \<open>Concrete inputs\<close>

text \<open>
  A north-up geotransform with square pixels, a DEM of three rows and three columns with
  the constant elevation 5, the same DEM with one cell holding the sentinel -9999, and a
  file system that holds the constant DEM.
\<close>

definition north_up :: "real \<Rightarrow> affine" where
  "north_up cell = \<lparr>aff_a = cell, aff_b = 0, aff_c = 0, aff_d = 0, aff_e = - cell, aff_f = 0\<rparr>"

definition flat_dem :: array2 where
  "flat_dem = [[Some 5, Some 5, Some 5], [Some 5, Some 5, Some 5], [Some 5, Some 5, Some 5]]"

definition gap_dem :: array2 where
  "gap_dem = [[Some 5, Some (- 9999), Some 5], [Some 5, Some 5, Some 5], [Some 5, Some 5, Some 5]]"

definition flat_tif :: geotiff where
  "flat_tif = \<lparr>band = flat_dem, transform = north_up 1000, crs = ''EPSG:32632'',
                dtype = ''float32'', band_count = 1, meta_nodata = None\<rparr>"

definition flat_fs :: filesystem where
  "flat_fs = \<lparr>fs_files = [''dem.tif'' \<mapsto> GeoTiff flat_tif], fs_dirs = {}\<rparr>"

text \<open>The file system after the curvature of the constant DEM has been written under \<open>wd\<close>.\<close>

definition flat_fs_done :: filesystem where
  "flat_fs_done =
     \<lparr>fs_files = [''dem.tif'' \<mapsto> GeoTiff flat_tif,
                  ''wd/inputs/dem/curvature.tif'' \<mapsto>
                     GeoTiff (flat_tif\<lparr>band := [[None, None, None], [None, Some 0, None], [None, None, None]],
                                       dtype := ''float32'', band_count := 1\<rparr>)],
      fs_dirs = {''wd'', ''wd/inputs'', ''wd/inputs/dem''}\<rparr>"

text \<open>An empty file system and one variable with a single frame of one row and two columns.\<close>

definition empty_fs :: filesystem where
  "empty_fs = \<lparr>fs_files = Map.empty, fs_dirs = {}\<rparr>"

definition one_variable :: "(string \<times> array2 list list \<times> string \<times> string) list" where
  "one_variable = [(''T2m'', [[[[Some 280, Some 281]]]], ''K'', ''air temperature'')]"

text \<open>
  A DEM whose centre cell holds the sentinel, a complete configuration that names the
  sentinel, and collaborators that do nothing: no download, and a shell whose commands
  return status 0.
\<close>

definition hole_dem :: array2 where
  "hole_dem = [[Some 5, Some 5, Some 5], [Some 5, Some (- 9999), Some 5], [Some 5, Some 5, Some 5]]"

definition hole_fs :: filesystem where
  "hole_fs = \<lparr>fs_files = [''dem.tif'' \<mapsto> GeoTiff (flat_tif\<lparr>band := hole_dem\<rparr>)], fs_dirs = {}\<rparr>"

definition full_config :: "string \<rightharpoonup> json" where
  "full_config =
     [''working_directory'' \<mapsto> JStr ''wd'', ''start_date'' \<mapsto> JStr ''2020-01-01'',
      ''end_date'' \<mapsto> JStr ''2020-01-31'', ''dem_file'' \<mapsto> JStr ''dem.tif'',
      ''era_file'' \<mapsto> JStr ''era.nc'', ''earthdatahub_pat'' \<mapsto> JStr ''token'',
      ''time_step'' \<mapsto> JStr ''1H'', ''jobs_parallel_downscale'' \<mapsto> JNum 1,
      ''jobs_parallel_download'' \<mapsto> JNum 1, ''dem_nodata'' \<mapsto> JNum (- 9999)]"

definition no_download :: "era5_request \<Rightarrow> filesystem \<Rightarrow> error option \<times> filesystem" where
  "no_download req fs = (None, fs)"

definition shell_ok :: "string \<Rightarrow> filesystem \<Rightarrow> int \<times> filesystem" where
  "shell_ok cmd fs = (0, fs)"

text \<open>
  Two notions for the proofs. A window is the part of an array that starts at row \<open>ro\<close> and
  column \<open>co\<close> and has \<open>hr\<close> rows and \<open>wc\<close> columns: every slice taken by
  \<open>raw_curvature\<close> is one. The stencil is what the vectorised expression computes at one
  pixel from the centre and its eight neighbours.
\<close>

definition window :: "nat \<Rightarrow> nat \<Rightarrow> nat \<Rightarrow> nat \<Rightarrow> 'a list list \<Rightarrow> 'a list list" where
  "window ro hr co wc P = map (\<lambda>r. take wc (drop co r)) (take hr (drop ro P))"

definition stencil ::
  "int \<Rightarrow> real \<Rightarrow> cell \<Rightarrow> cell \<Rightarrow> cell \<Rightarrow> cell \<Rightarrow> cell \<Rightarrow> cell \<Rightarrow> cell \<Rightarrow> cell \<Rightarrow> cell \<Rightarrow> cell" where
  "stencil inc deltaxy z zW zE zS zN zSW zNE zNW zSE =
     (let c_diag = map_option (\<lambda>v. v / (sqrt 2 * 16 * of_int inc * deltaxy))
                     (fl2 (\<lambda>u v. u - v) (fl2 (\<lambda>u v. u - v) (fl2 (\<lambda>u v. u - v)
                        (fl2 (\<lambda>u v. u - v) (map_option (\<lambda>v. 4 * v) z) zSW) zNE) zNW) zSE);
          c_cross = map_option (\<lambda>v. v / (16 * of_int inc * deltaxy))
                     (fl2 (\<lambda>u v. u - v) (fl2 (\<lambda>u v. u - v) (fl2 (\<lambda>u v. u - v)
                        (fl2 (\<lambda>u v. u - v) (map_option (\<lambda>v. 4 * v) z) zW) zE) zN) zS)
      in if z = None then None else fl2 (\<lambda>u v. u + v) c_diag c_cross)"

section \<open>Properties of the flags and of the per-month runner\<close>

lemma parse_yes_no_flag_cases:
  "parse_yes_no_flag v n = Inr True \<longleftrightarrow> v = JStr ''y''"
  "parse_yes_no_flag v n = Inr False \<longleftrightarrow> v = JStr ''n''"
  by (auto simp: parse_yes_no_flag_def)

lemma seq_error: "fst (m1 w) \<noteq> None \<Longrightarrow> fst (seq m1 m2 w) \<noteq> None"
  by (auto simp: seq_def split: prod.splits option.splits)

lemma seq_error2: "(\<And>w'. fst (m2 w') \<noteq> None) \<Longrightarrow> fst (seq m1 m2 w) \<noteq> None"
  by (auto simp: seq_def split: prod.splits option.splits)

lemma when_enabled_invalid:
  assumes "flags k = Some v" "v \<noteq> JStr ''y''" "v \<noteq> JStr ''n''"
  shows "when_enabled exec flags k mk w = (Some (ValueError k), w)"
  using assms by (simp add: when_enabled_def flag_enabled_def dict_get_def parse_yes_no_flag_def)

lemma when_enabled_off:
  assumes "flags k = Some (JStr ''n'') \<or> flags k = None"
  shows "when_enabled exec flags k mk w = (None, w)"
  using assms by (auto simp: when_enabled_def flag_enabled_def dict_get_def parse_yes_no_flag_def)

lemma when_enabled_on:
  assumes "flags k = Some (JStr ''y'')"
  shows "when_enabled exec flags k mk w = (case mk of Inl e \<Rightarrow> (Some e, w) | Inr c \<Rightarrow> exec c w)"
  using assms by (simp add: when_enabled_def flag_enabled_def dict_get_def parse_yes_no_flag_def)

lemma seq_last: "(\<And>w'. m2 w' = (None, w')) \<Longrightarrow> seq m1 m2 w = m1 w"
  by (auto simp: seq_def split: prod.splits option.splits)

text \<open>
  C6. \<open>parse_yes_no_flag\<close> returns True on exactly \<open>"y"\<close>, False on exactly \<open>"n"\<close> and
  raises ValueError on every other value; \<open>run_month\<close> applies it to the flag of each of the
  five variables, so a flag that is present with any other value makes the run end in an
  exception.
\<close>

theorem flag_values_checked:
  "parse_yes_no_flag (JStr ''y'') n = Inr True \<and>
   parse_yes_no_flag (JStr ''n'') n = Inr False \<and>
   (v \<noteq> JStr ''y'' \<and> v \<noteq> JStr ''n'' \<longrightarrow> parse_yes_no_flag v n = Inl (ValueError n)) \<and>
   (k \<in> set variable_keys \<and> flags k = Some v \<and> v \<noteq> JStr ''y'' \<and> v \<noteq> JStr ''n'' \<longrightarrow>
      fst (run_month exec clim dem_path wd flags rates nodata w) \<noteq> None)"
proof -
  have run: "fst (run_month exec clim dem_path wd flags rates nodata w) \<noteq> None"
    if k: "k \<in> set variable_keys" and v: "flags k = Some v" "v \<noteq> JStr ''y''" "v \<noteq> JStr ''n''"
  proof (cases "month_year clim")
    case (Inl e)
    then show ?thesis by (simp add: run_month_def)
  next
    case (Inr my)
    have bad: "fst (when_enabled exec flags k mk w') \<noteq> None" for mk w'
      using v by (simp add: when_enabled_invalid [where v = v])
    from k consider "k = ''t_air''" | "k = ''sw_radiation''" | "k = ''relative_humidity''"
      | "k = ''precipitation''" | "k = ''wind''"
      by (auto simp: variable_keys_def)
    then show ?thesis
    proof cases
      case 1
      then show ?thesis using bad Inr
        by (simp add: run_month_def seq_error)
    next
      case 2
      then show ?thesis using bad Inr
        by (simp add: run_month_def seq_error seq_error2)
    next
      case 3
      then show ?thesis using bad Inr
        by (simp add: run_month_def seq_error seq_error2)
    next
      case 4
      then show ?thesis using bad Inr
        by (simp add: run_month_def seq_error seq_error2)
    next
      case 5
      then show ?thesis using bad Inr
        by (simp add: run_month_def seq_error2)
    qed
  qed
  show ?thesis
    using run by (simp add: parse_yes_no_flag_def)
qed

theorem flag_values_checked_witness:
  "fst (run_month exec_log ''era5_2020_01_land.nc'' ''dem.tif'' ''wd''
          [''t_air'' \<mapsto> JStr ''yes''] Map.empty None []) \<noteq> None"
  using flag_values_checked [where v = "JStr ''yes''" and k = "''t_air''"
      and flags = "[''t_air'' \<mapsto> JStr ''yes'']" and exec = exec_log
      and clim = "''era5_2020_01_land.nc''" and dem_path = "''dem.tif''" and wd = "''wd''"
      and rates = Map.empty and nodata = None and w = "[]"]
  by (simp add: variable_keys_def)

lemma path_join_plain:
  assumes "wd \<noteq> []" "last wd \<noteq> CHR ''/''"
  shows "path_join wd [''outputs'', ''Temperature''] = wd @ ''/outputs/Temperature''"
  using assms by (simp add: path_join_def join2_def)

text \<open>
  C8. With the \<open>t_air\<close> flag \<open>"y"\<close> and the four other flags \<open>"n"\<close>, processing a climate file
  has exactly the effect of the temperature operator called with the output folder
  \<open>outputs/Temperature\<close> of the working directory (or of the exception raised before it, when
  the file name or the override table is malformed): no other operator is invoked, so no
  other output folder is used.
\<close>

theorem only_temperature_runs:
  assumes "flags ''t_air'' = Some (JStr ''y'')"
    and "flags ''sw_radiation'' = Some (JStr ''n'')"
    and "flags ''relative_humidity'' = Some (JStr ''n'')"
    and "flags ''precipitation'' = Some (JStr ''n'')"
    and "flags ''wind'' = Some (JStr ''n'')"
  shows "run_month exec clim dem_path wd flags rates nodata w =
           (case month_year clim of
              Inl e \<Rightarrow> (Some e, w)
            | Inr _ \<Rightarrow>
               (case monthly_override rates ''temperature'' of
                  Inl e \<Rightarrow> (Some e, w)
                | Inr lr \<Rightarrow>
                    exec (Downscale_Temperature dem_path clim
                            (path_join wd [''outputs'', ''Temperature'']) lr nodata) w)) \<and>
         (wd \<noteq> [] \<and> last wd \<noteq> CHR ''/'' \<longrightarrow>
            path_join wd [''outputs'', ''Temperature''] = wd @ ''/outputs/Temperature'')"
proof -
  have off: "when_enabled exec flags ''sw_radiation'' mk w' = (None, w')"
    "when_enabled exec flags ''relative_humidity'' mk w' = (None, w')"
    "when_enabled exec flags ''precipitation'' mk w' = (None, w')"
    "when_enabled exec flags ''wind'' mk w' = (None, w')" for mk w'
    using assms by (simp_all add: when_enabled_off)
  have rest: "seq m (seq (when_enabled exec flags ''sw_radiation'' mk1)
                 (seq (when_enabled exec flags ''relative_humidity'' mk2)
                 (seq (when_enabled exec flags ''precipitation'' mk3)
                      (when_enabled exec flags ''wind'' mk4)))) w = m w" for m mk1 mk2 mk3 mk4
    by (rule seq_last) (simp add: seq_def off)
  show ?thesis
    using assms(1)
    by (simp add: run_month_def rest when_enabled_on with_override_def path_join_plain
        split: sum.splits)
qed

theorem only_temperature_runs_witness:
  "run_month exec_log ''in/era5_2020_01_land.nc'' ''dem.tif'' ''wd''
     [''t_air'' \<mapsto> JStr ''y'', ''sw_radiation'' \<mapsto> JStr ''n'', ''relative_humidity'' \<mapsto> JStr ''n'',
      ''precipitation'' \<mapsto> JStr ''n'', ''wind'' \<mapsto> JStr ''n''] Map.empty None [] =
   (None, [Downscale_Temperature ''dem.tif'' ''in/era5_2020_01_land.nc''
             ''wd/outputs/Temperature'' None None])"
  using only_temperature_runs [where exec = exec_log and clim = "''in/era5_2020_01_land.nc''"
      and dem_path = "''dem.tif''" and wd = "''wd''" and rates = Map.empty and nodata = None
      and w = "[]"
      and flags = "[''t_air'' \<mapsto> JStr ''y'', ''sw_radiation'' \<mapsto> JStr ''n'',
        ''relative_humidity'' \<mapsto> JStr ''n'', ''precipitation'' \<mapsto> JStr ''n'',
        ''wind'' \<mapsto> JStr ''n'']"]
  by (simp add: month_year_def basename_def py_index_def monthly_override_def dict_get_def
      exec_log_def)

lemma flag_enabled_default:
  assumes "flags k = None"
  shows "flag_enabled (flags(k \<mapsto> JStr ''n'')) k' = flag_enabled flags k'"
  using assms by (simp add: flag_enabled_def dict_get_def)

text \<open>
  C9. A variable whose key is absent from \<open>variables_to_downscale\<close> is treated as disabled:
  the lookup falls back to \<open>"n"\<close>, the flag parses to False without any exception, the
  variable's block leaves the world as it is, and the whole run is the run of the same
  mapping with the key set to \<open>"n"\<close>.
\<close>

theorem absent_flag_is_disabled:
  assumes "k \<in> set variable_keys" and "flags k = None"
  shows "flag_enabled flags k = Inr False \<and>
         when_enabled exec flags k mk w = (None, w) \<and>
         run_month exec clim dem_path wd flags rates nodata w =
           run_month exec clim dem_path wd (flags(k \<mapsto> JStr ''n'')) rates nodata w"
proof -
  have same: "when_enabled exec (flags(k \<mapsto> JStr ''n'')) k' = when_enabled exec flags k'" for k'
    using assms(2)
    by (intro ext) (simp add: when_enabled_def flag_enabled_default [where flags = flags and k = k])
  show ?thesis
    using assms(2)
    by (cases "month_year clim")
       (simp_all add: run_month_def same when_enabled_off flag_enabled_def dict_get_def
          parse_yes_no_flag_def)
qed

theorem absent_flag_is_disabled_witness:
  "run_month exec_log ''era5_2020_01_land.nc'' ''dem.tif'' ''wd''
     [''t_air'' \<mapsto> JStr ''y''] Map.empty None [] =
   run_month exec_log ''era5_2020_01_land.nc'' ''dem.tif'' ''wd''
     [''t_air'' \<mapsto> JStr ''y'', ''wind'' \<mapsto> JStr ''n''] Map.empty None [] \<and>
   flag_enabled [''t_air'' \<mapsto> JStr ''y''] ''wind'' = Inr False"
  using absent_flag_is_disabled [where k = "''wind''" and flags = "[''t_air'' \<mapsto> JStr ''y'']"
      and exec = exec_log and clim = "''era5_2020_01_land.nc''" and dem_path = "''dem.tif''"
      and wd = "''wd''" and rates = Map.empty and nodata = None and w = "[]"]
  by (simp add: variable_keys_def)

section \<open>Arrays, padding and slices\<close>


lemma is_array_iff: "is_array h w arr \<longleftrightarrow> length arr = h \<and> (\<forall>i<h. length (arr ! i) = w)"
  by (auto simp: is_array_def list_all_length)

lemma is_arrayD: "is_array h w arr \<Longrightarrow> length arr = h" "is_array h w arr \<Longrightarrow> i < h \<Longrightarrow> length (arr ! i) = w"
  by (auto simp: is_array_iff)

lemma nrows_array: "is_array h w arr \<Longrightarrow> nrows arr = h"
  by (simp add: nrows_def is_array_iff)

lemma ncols_array: "is_array h w arr \<Longrightarrow> 0 < h \<Longrightarrow> ncols arr = w"
  by (cases arr) (auto simp: ncols_def is_array_def)

lemma length_pad_edge1: "length (pad_edge1 n xs) = length xs + 2 * n"
  by (simp add: pad_edge1_def)

lemma nth_pad_edge1:
  assumes "xs \<noteq> []" "p < length xs + 2 * n"
  shows "pad_edge1 n xs ! p = xs ! (min (length xs - 1) (p - n))"
proof -
  consider "p < n" | "n \<le> p" "p - n < length xs" | "n \<le> p" "length xs \<le> p - n"
    by linarith
  then show ?thesis
  proof cases
    case 1
    then show ?thesis using assms by (simp add: pad_edge1_def nth_append hd_conv_nth)
  next
    case 2
    then have "min (length xs - 1) (p - n) = p - n" by simp
    with 2 show ?thesis by (simp add: pad_edge1_def nth_append)
  next
    case 3
    then have m: "min (length xs - 1) (p - n) = length xs - 1" by simp
    from 3 assms have "p - n - length xs < n" by simp
    with 3 show ?thesis using assms(1)
      by (simp add: pad_edge1_def nth_append last_conv_nth m)
  qed
qed

lemma set_pad_edge1: "xs \<noteq> [] \<Longrightarrow> set (pad_edge1 n xs) \<subseteq> set xs"
  by (auto simp: pad_edge1_def set_replicate_conv_if)

lemma pad_edge_array:
  assumes "is_array ny nx arr" "0 < ny"
  shows "is_array (ny + 2 * n) (nx + 2 * n) (pad_edge n arr)"
proof -
  have "arr \<noteq> []" using assms by (auto simp: is_array_def)
  then have "set (pad_edge1 n (map (pad_edge1 n) arr)) \<subseteq> set (map (pad_edge1 n) arr)"
    by (intro set_pad_edge1) simp
  then have "\<forall>r\<in>set (pad_edge n arr). length r = nx + 2 * n"
    using assms by (auto simp: pad_edge_def is_array_def list_all_iff length_pad_edge1)
  then show ?thesis using assms
    by (simp add: is_array_def list_all_iff) (simp add: pad_edge_def length_pad_edge1)
qed

lemma nth_pad_edge:
  assumes "is_array ny nx arr" "0 < ny" "0 < nx" "p < ny + 2 * n" "q < nx + 2 * n"
  shows "pad_edge n arr ! p ! q = arr ! (min (ny - 1) (p - n)) ! (min (nx - 1) (q - n))"
proof -
  have len: "length arr = ny" and ne: "arr \<noteq> []"
    using assms by (auto simp: is_array_iff)
  let ?r = "min (ny - 1) (p - n)"
  have r: "?r < ny" using assms by simp
  have "pad_edge n arr ! p = map (pad_edge1 n) arr ! ?r"
    using assms ne len by (simp add: pad_edge_def nth_pad_edge1)
  also have "\<dots> = pad_edge1 n (arr ! ?r)"
    using r len by simp
  finally have row: "pad_edge n arr ! p = pad_edge1 n (arr ! ?r)" .
  have lr: "length (arr ! ?r) = nx"
    using assms(1) r by (simp add: is_array_iff)
  then have "arr ! ?r \<noteq> []" using assms by auto
  then show ?thesis
    using assms lr by (simp add: row nth_pad_edge1)
qed


lemma nat_int_pats:
  "nat (2 * int k) = 2 * k" "nat (3 * int k) = 3 * k" "nat (int k + int n) = k + n"
  by linarith+

lemma slice_pats:
  assumes "length xs = n + 2 * k" "0 < k"
  shows "slice (int k) (- int k) xs = take n (drop k xs)"
    and "slice (int k - int k) (- 2 * int k) xs = take n xs"
    and "slice (int k + int k) (2 * int k + int k) xs = take (min k n) (drop (2 * k) xs)"
  using assms by (auto simp: slice_def norm_index_def min_def nat_int_pats)

lemma slice_crop: "slice 0 (int h) = take h"
  by (rule ext) (auto simp: slice_def norm_index_def min_def)


lemma window_array:
  assumes "is_array H W P" "ro + hr \<le> H" "co + wc \<le> W"
  shows "is_array hr wc (window ro hr co wc P)"
  using assms by (auto simp: is_array_iff window_def)

lemma window_nth:
  assumes "is_array H W P" "ro + hr \<le> H" "co + wc \<le> W" "i < hr" "j < wc"
  shows "window ro hr co wc P ! i ! j = P ! (ro + i) ! (co + j)"
  using assms by (auto simp: is_array_iff window_def)

lemma window_crop:
  assumes "h \<le> hr" "w \<le> wc"
  shows "slice2 0 (int h) 0 (int w) (window ro hr co wc P) = window ro h co w P"
  using assms by (simp add: slice2_def slice_crop window_def take_map min_def)

lemma map_slice_pats:
  assumes "\<forall>r\<in>set rows. length r = n + 2 * k" "0 < k"
  shows "map (slice (int k) (- int k)) rows = map (\<lambda>r. take n (drop k r)) rows"
    and "map (slice (int k - int k) (- 2 * int k)) rows = map (\<lambda>r. take n (drop 0 r)) rows"
    and "map (slice (int k + int k) (2 * int k + int k)) rows =
           map (\<lambda>r. take (min k n) (drop (2 * k) r)) rows"
proof -
  show "map (slice (int k) (- int k)) rows = map (\<lambda>r. take n (drop k r)) rows"
    using assms by (intro map_cong refl slice_pats(1)) auto
  show "map (slice (int k - int k) (- 2 * int k)) rows = map (\<lambda>r. take n (drop 0 r)) rows"
    unfolding drop_0 using assms by (intro map_cong refl slice_pats(2)) auto
  show "map (slice (int k + int k) (2 * int k + int k)) rows =
           map (\<lambda>r. take (min k n) (drop (2 * k) r)) rows"
    using assms by (intro map_cong refl slice_pats(3)) auto
qed

lemma views_window:
  assumes P: "is_array (ny + 2 * k) (nx + 2 * k) P" and k: "0 < k"
  shows "slice2 (int k) (- int k) (int k) (- int k) P = window k ny k nx P"
    and "slice2 (int k) (- int k) (int k - int k) (- 2 * int k) P = window k ny 0 nx P"
    and "slice2 (int k) (- int k) (int k + int k) (2 * int k + int k) P = window k ny (2 * k) (min k nx) P"
    and "slice2 (int k + int k) (2 * int k + int k) (int k) (- int k) P = window (2 * k) (min k ny) k nx P"
    and "slice2 (int k - int k) (- 2 * int k) (int k) (- int k) P = window 0 ny k nx P"
    and "slice2 (int k + int k) (2 * int k + int k) (int k - int k) (- 2 * int k) P = window (2 * k) (min k ny) 0 nx P"
    and "slice2 (int k - int k) (- 2 * int k) (int k + int k) (2 * int k + int k) P = window 0 ny (2 * k) (min k nx) P"
    and "slice2 (int k - int k) (- 2 * int k) (int k - int k) (- 2 * int k) P = window 0 ny 0 nx P"
    and "slice2 (int k + int k) (2 * int k + int k) (int k + int k) (2 * int k + int k) P = window (2 * k) (min k ny) (2 * k) (min k nx) P"
proof -
  have len: "length P = ny + 2 * k" using P by (simp add: is_array_iff)
  have rows: "\<forall>r\<in>set (take a (drop b P)). length r = nx + 2 * k" for a b
    using P by (auto simp: is_array_def list_all_iff dest!: in_set_takeD in_set_dropD)
  have rows': "\<forall>r\<in>set (take a P). length r = nx + 2 * k" for a
    using P by (auto simp: is_array_def list_all_iff dest!: in_set_takeD)
  note pats = slice_pats [OF len k] map_slice_pats [OF rows k] map_slice_pats [OF rows' k]
  show "slice2 (int k) (- int k) (int k) (- int k) P = window k ny k nx P"
    unfolding slice2_def window_def by (simp only: pats)
  show "slice2 (int k) (- int k) (int k - int k) (- 2 * int k) P = window k ny 0 nx P"
    unfolding slice2_def window_def by (simp only: pats)
  show "slice2 (int k) (- int k) (int k + int k) (2 * int k + int k) P = window k ny (2 * k) (min k nx) P"
    unfolding slice2_def window_def by (simp only: pats)
  show "slice2 (int k + int k) (2 * int k + int k) (int k) (- int k) P = window (2 * k) (min k ny) k nx P"
    unfolding slice2_def window_def by (simp only: pats)
  show "slice2 (int k - int k) (- 2 * int k) (int k) (- int k) P = window 0 ny k nx P"
    unfolding slice2_def window_def by (simp only: pats drop_0)
  show "slice2 (int k + int k) (2 * int k + int k) (int k - int k) (- 2 * int k) P = window (2 * k) (min k ny) 0 nx P"
    unfolding slice2_def window_def by (simp only: pats)
  show "slice2 (int k - int k) (- 2 * int k) (int k + int k) (2 * int k + int k) P = window 0 ny (2 * k) (min k nx) P"
    unfolding slice2_def window_def by (simp only: pats drop_0)
  show "slice2 (int k - int k) (- 2 * int k) (int k - int k) (- 2 * int k) P = window 0 ny 0 nx P"
    unfolding slice2_def window_def by (simp only: pats drop_0)
  show "slice2 (int k + int k) (2 * int k + int k) (int k + int k) (2 * int k + int k) P = window (2 * k) (min k ny) (2 * k) (min k nx) P"
    unfolding slice2_def window_def by (simp only: pats)
qed

lemma arr_map_array: "is_array h w a \<Longrightarrow> is_array h w (arr_map f a)"
  by (simp add: is_array_iff arr_map_def)

lemma arr_map_nth: "is_array h w a \<Longrightarrow> i < h \<Longrightarrow> j < w \<Longrightarrow> arr_map f a ! i ! j = f (a ! i ! j)"
  by (simp add: is_array_iff arr_map_def)

lemma arr_map2_array: "is_array h w a \<Longrightarrow> is_array h w b \<Longrightarrow> is_array h w (arr_map2 f a b)"
  by (simp add: is_array_iff arr_map2_def)

lemma arr_map2_nth:
  "is_array h w a \<Longrightarrow> is_array h w b \<Longrightarrow> i < h \<Longrightarrow> j < w \<Longrightarrow>
   arr_map2 f a b ! i ! j = f (a ! i ! j) (b ! i ! j)"
  by (simp add: is_array_iff arr_map2_def)


lemma nrows_window:
  assumes "is_array H W P" "ro + hr \<le> H"
  shows "nrows (window ro hr co wc P) = hr"
  using assms by (simp add: nrows_def window_def is_array_iff)

lemma ncols_window:
  assumes "is_array H W P" "ro + hr \<le> H" "co + wc \<le> W" "0 < hr"
  shows "ncols (window ro hr co wc P) = wc"
  using window_array [OF assms(1-3)] assms(4) by (rule ncols_array)

lemma raw_curvature_windows:
  assumes dem: "is_array ny nx dem" and pos: "0 < ny" "0 < nx" "0 < k"
  defines "P \<equiv> pad_edge k dem" and "h \<equiv> min k ny" and "w \<equiv> min k nx"
  shows "raw_curvature dem (int k) d =
     arr_map2 (\<lambda>zc cv. if zc = None then None else cv) (window k h k w P)
       (arr_add
          (arr_div (arr_sub (arr_sub (arr_sub (arr_sub (arr_scale 4 (window k h k w P))
              (window (2 * k) h 0 w P)) (window 0 h (2 * k) w P)) (window 0 h 0 w P))
              (window (2 * k) h (2 * k) w P)) (sqrt 2 * 16 * of_int (int k) * d))
          (arr_div (arr_sub (arr_sub (arr_sub (arr_sub (arr_scale 4 (window k h k w P))
              (window k h 0 w P)) (window k h (2 * k) w P)) (window 0 h k w P))
              (window (2 * k) h k w P)) (16 * of_int (int k) * d)))"
proof -
  have P: "is_array (ny + 2 * k) (nx + 2 * k) P"
    unfolding P_def using dem pos(1) by (rule pad_edge_array)
  have hw: "h \<le> ny" "w \<le> nx" "h \<le> k" "w \<le> k" "0 < h" "0 < w" "min k ny = h" "min k nx = w"
    using pos by (simp_all add: h_def w_def)
  have nr: "nrows (window k ny k nx P) = ny" "nrows (window k ny 0 nx P) = ny"
    "nrows (window k ny (2 * k) w P) = ny" "nrows (window (2 * k) h k nx P) = h"
    "nrows (window 0 ny k nx P) = ny" "nrows (window (2 * k) h 0 nx P) = h"
    "nrows (window 0 ny (2 * k) w P) = ny" "nrows (window 0 ny 0 nx P) = ny"
    "nrows (window (2 * k) h (2 * k) w P) = h"
    using hw by (simp_all add: nrows_window [OF P])
  have nc: "ncols (window k ny k nx P) = nx" "ncols (window k ny 0 nx P) = nx"
    "ncols (window k ny (2 * k) w P) = w" "ncols (window (2 * k) h k nx P) = nx"
    "ncols (window 0 ny k nx P) = nx" "ncols (window (2 * k) h 0 nx P) = nx"
    "ncols (window 0 ny (2 * k) w P) = w" "ncols (window 0 ny 0 nx P) = nx"
    "ncols (window (2 * k) h (2 * k) w P) = w"
    using hw pos by (simp_all add: ncols_window [OF P])
  have mins: "minimum [ny, ny, ny, h, ny, h, ny, ny, h] = h"
    "minimum [nx, nx, w, nx, nx, nx, w, nx, w] = w"
    using hw by simp_all
  have crops: "slice2 0 (int h) 0 (int w) (window ro ny co nx P) = window ro h co w P"
    "slice2 0 (int h) 0 (int w) (window ro ny co w P) = window ro h co w P"
    "slice2 0 (int h) 0 (int w) (window ro h co nx P) = window ro h co w P"
    "slice2 0 (int h) 0 (int w) (window ro h co w P) = window ro h co w P" for ro co
    using hw by (simp_all add: window_crop)
  show ?thesis
    unfolding raw_curvature_def Let_def nat_int P_def [symmetric]
    by (simp only: views_window [OF P pos(3)] hw(7,8) list.map nr nc mins crops)
qed


lemmas arr_ops_def = arr_sub_def arr_add_def arr_scale_def arr_div_def arr_abs_def

lemma raw_curvature_array:
  assumes dem: "is_array ny nx dem" and pos: "0 < ny" "0 < nx" "0 < k"
  shows "is_array (min k ny) (min k nx) (raw_curvature dem (int k) d)"
proof -
  have P: "is_array (ny + 2 * k) (nx + 2 * k) (pad_edge k dem)"
    using dem pos(1) by (rule pad_edge_array)
  have wa: "is_array (min k ny) (min k nx) (window ro (min k ny) co (min k nx) (pad_edge k dem))"
    if "ro \<le> 2 * k" "co \<le> 2 * k" for ro co
    using that by (intro window_array [OF P]) auto
  show ?thesis
    unfolding raw_curvature_windows [OF assms] arr_ops_def
    by (intro arr_map2_array arr_map_array wa) simp_all
qed

lemma raw_curvature_nth:
  assumes dem: "is_array ny nx dem" and pos: "0 < ny" "0 < nx" "0 < k"
    and ij: "i < min k ny" "j < min k nx"
  shows "raw_curvature dem (int k) d ! i ! j =
     stencil (int k) d (dem ! i ! j) (dem ! i ! 0) (dem ! i ! min (nx - 1) (k + j))
       (dem ! min (ny - 1) (k + i) ! j) (dem ! 0 ! j)
       (dem ! min (ny - 1) (k + i) ! 0) (dem ! 0 ! min (nx - 1) (k + j)) (dem ! 0 ! 0)
       (dem ! min (ny - 1) (k + i) ! min (nx - 1) (k + j))"
proof -
  let ?P = "pad_edge k dem" and ?h = "min k ny" and ?w = "min k nx"
  have P: "is_array (ny + 2 * k) (nx + 2 * k) ?P"
    using dem pos(1) by (rule pad_edge_array)
  have wa: "is_array ?h ?w (window ro ?h co ?w ?P)"
    if "ro \<le> 2 * k" "co \<le> 2 * k" for ro co
    using that by (intro window_array [OF P]) auto
  have wn: "window ro ?h co ?w ?P ! i ! j =
      dem ! min (ny - 1) (ro + i - k) ! min (nx - 1) (co + j - k)"
    if "ro \<le> 2 * k" "co \<le> 2 * k" for ro co
  proof -
    have "window ro ?h co ?w ?P ! i ! j = ?P ! (ro + i) ! (co + j)"
      using that ij by (intro window_nth [OF P]) auto
    also have "\<dots> = dem ! min (ny - 1) (ro + i - k) ! min (nx - 1) (co + j - k)"
      using that ij by (intro nth_pad_edge [OF dem pos(1,2)]) auto
    finally show ?thesis .
  qed
  have idx: "min (ny - 1) i = i" "min (nx - 1) j = j" "i - k = 0" "j - k = 0"
    "min (ny - 1) 0 = 0" "min (nx - 1) 0 = 0" "2 * k + i - k = k + i" "2 * k + j - k = k + j"
    using ij by auto
  have w9: "window k ?h k ?w ?P ! i ! j = dem ! i ! j"
    "window k ?h 0 ?w ?P ! i ! j = dem ! i ! 0"
    "window k ?h (2 * k) ?w ?P ! i ! j = dem ! i ! min (nx - 1) (k + j)"
    "window (2 * k) ?h k ?w ?P ! i ! j = dem ! min (ny - 1) (k + i) ! j"
    "window 0 ?h k ?w ?P ! i ! j = dem ! 0 ! j"
    "window (2 * k) ?h 0 ?w ?P ! i ! j = dem ! min (ny - 1) (k + i) ! 0"
    "window 0 ?h (2 * k) ?w ?P ! i ! j = dem ! 0 ! min (nx - 1) (k + j)"
    "window 0 ?h 0 ?w ?P ! i ! j = dem ! 0 ! 0"
    "window (2 * k) ?h (2 * k) ?w ?P ! i ! j = dem ! min (ny - 1) (k + i) ! min (nx - 1) (k + j)"
    using idx by (simp_all add: wn)
  have arr: "is_array ?h ?w (arr_map f a)" if "is_array ?h ?w a" for f and a :: array2
    using that by (rule arr_map_array)
  have arr2: "is_array ?h ?w (arr_map2 f a b)" if "is_array ?h ?w a" "is_array ?h ?w b"
    for f and a b :: array2
    using that by (rule arr_map2_array)
  have n1: "arr_map f a ! i ! j = f (a ! i ! j)" if "is_array ?h ?w a" for f and a :: array2
    using that ij by (rule arr_map_nth)
  have n2: "arr_map2 f a b ! i ! j = f (a ! i ! j) (b ! i ! j)"
    if "is_array ?h ?w a" "is_array ?h ?w b" for f and a b :: array2
    using that ij by (rule arr_map2_nth)
  show ?thesis
    unfolding raw_curvature_windows [OF dem pos] arr_ops_def stencil_def Let_def
    by (simp add: n1 n2 arr arr2 wa w9)
qed



lemma array_tabulate:
  assumes "is_array h w a"
  shows "a = map (\<lambda>i. map (\<lambda>j. a ! i ! j) [0..<w]) [0..<h]"
  using assms by (auto simp: is_array_iff intro!: nth_equalityI)

lemma array_cell_in_concat:
  assumes "is_array h w a" "i < h" "j < w"
  shows "a ! i ! j \<in> set (concat a)"
proof -
  have "a ! i \<in> set a" "a ! i ! j \<in> set (a ! i)"
    using assms by (simp_all add: is_array_iff)
  then show ?thesis by auto
qed

lemma defined_values_iff: "v \<in> set (defined_values arr) \<longleftrightarrow> Some v \<in> set (concat arr)"
  by (auto simp: defined_values_def split: option.splits)

lemma fold_max_init: "(v::real) \<le> fold max vs v"
proof (induction vs arbitrary: v)
  case Nil
  then show ?case by simp
next
  case (Cons a vs)
  have "v \<le> max a v" by simp
  also have "\<dots> \<le> fold max vs (max a v)" by (rule Cons.IH)
  finally show ?case by simp
qed

lemma fold_max_mem: "(x::real) \<in> set vs \<Longrightarrow> x \<le> fold max vs v"
proof (induction vs arbitrary: v)
  case Nil
  then show ?case by simp
next
  case (Cons a vs)
  show ?case
  proof (cases "x = a")
    case True
    have "x \<le> max a v" using True by simp
    also have "\<dots> \<le> fold max vs (max a v)" by (rule fold_max_init)
    finally show ?thesis by simp
  next
    case False
    then have "x \<in> set vs" using Cons.prems by simp
    then show ?thesis using Cons.IH by simp
  qed
qed

lemma fold_max_ge: "(x::real) \<in> set (v # vs) \<Longrightarrow> x \<le> fold max vs v"
  using fold_max_init [of v vs] fold_max_mem [of x vs v] by auto

lemma nanmax_bound:
  assumes "nanmax arr = Inr m" "Some u \<in> set (concat arr)"
  shows "u \<le> curve_max_of m"
proof -
  have u: "u \<in> set (defined_values arr)" using assms(2) by (simp add: defined_values_iff)
  then obtain v vs where vs: "defined_values arr = v # vs"
    by (cases "defined_values arr") auto
  with assms(1) have m: "m = Some (fold max vs v)"
    by (auto simp: nanmax_def split: if_splits)
  have "u \<le> fold max vs v" using u unfolding vs by (rule fold_max_ge)
  then show ?thesis by (simp add: m curve_max_of_def)
qed

lemma curve_max_pos: "0 < curve_max_of m"
  by (auto simp: curve_max_of_def split: option.splits)

lemma concat_arr_map: "set (concat (arr_map f a)) = f ` set (concat a)"
  by (auto simp: arr_map_def)

lemma normalised_bound:
  assumes "nanmax (arr_abs curvature) = Inr m"
    and "Some v \<in> set (concat (arr_div curvature (2 * curve_max_of m)))"
  shows "\<bar>v\<bar> \<le> 1 / 2"
proof -
  have "Some v \<in> map_option (\<lambda>u. u / (2 * curve_max_of m)) ` set (concat curvature)"
    using assms(2) unfolding arr_div_def concat_arr_map .
  then obtain x where x: "x \<in> set (concat curvature)"
    and xv: "map_option (\<lambda>u. u / (2 * curve_max_of m)) x = Some v"
    by (metis imageE)
  then obtain u where u: "x = Some u" "v = u / (2 * curve_max_of m)"
    by (cases x) auto
  have "map_option abs x \<in> map_option abs ` set (concat curvature)"
    using x by (rule imageI)
  then have "Some \<bar>u\<bar> \<in> set (concat (arr_abs curvature))"
    unfolding arr_abs_def concat_arr_map using u(1) by simp
  then have "\<bar>u\<bar> \<le> curve_max_of m"
    using assms(1) by (rule nanmax_bound [rotated])
  moreover have "0 < curve_max_of m" by (rule curve_max_pos)
  ultimately show ?thesis
    by (simp add: u(2) field_simps)
qed

lemma assign_block_out:
  assumes "assign_block full r0 r1 c0 c1 block = Inr out" "is_array ny nx full" "0 < ny"
  shows "out = map (\<lambda>r. map (\<lambda>c.
            if norm_index r0 ny \<le> r \<and> r < max (norm_index r0 ny) (norm_index r1 ny) \<and>
               norm_index c0 nx \<le> c \<and> c < max (norm_index c0 nx) (norm_index c1 nx)
            then block ! (if nrows block = 1 then 0 else r - norm_index r0 ny)
                       ! (if ncols block = 1 then 0 else c - norm_index c0 nx)
            else full ! r ! c) [0..<nx]) [0..<ny]"
proof -
  have nr: "nrows full = ny" "ncols full = nx"
    using assms by (simp_all add: nrows_array ncols_array [of ny nx])
  from assms(1) show ?thesis
    unfolding assign_block_def Let_def nr by (simp split: if_splits)
qed

lemma assign_block_array:
  assumes "assign_block full r0 r1 c0 c1 block = Inr out" "is_array ny nx full" "0 < ny"
  shows "is_array ny nx out"
  unfolding assign_block_out [OF assms] by (simp add: is_array_iff)


lemma assign_block_ok:
  assumes "assign_block full r0 r1 c0 c1 block = Inr out"
  shows "(nrows block = max (norm_index r0 (nrows full)) (norm_index r1 (nrows full))
            - norm_index r0 (nrows full) \<or> nrows block = 1) \<and>
         (ncols block = max (norm_index c0 (ncols full)) (norm_index c1 (ncols full))
            - norm_index c0 (ncols full) \<or> ncols block = 1)"
  using assms unfolding assign_block_def Let_def by (simp split: if_splits)

lemma assign_block_cell:
  assumes a: "assign_block full r0 r1 c0 c1 block = Inr out"
    and full: "is_array ny nx full" and blk: "is_array h w block" "0 < h" "0 < w"
    and rc: "r < ny" "c < nx"
  shows "out ! r ! c = full ! r ! c \<or> (\<exists>i<h. \<exists>j<w. out ! r ! c = block ! i ! j)"
proof -
  have ny: "0 < ny" using rc by simp
  have nr: "nrows full = ny" "ncols full = nx" "nrows block = h" "ncols block = w"
    using full blk ny by (simp_all add: nrows_array ncols_array [of ny nx] ncols_array [of h w])
  note ok = assign_block_ok [OF a, unfolded nr]
  let ?ra = "norm_index r0 ny" and ?ca = "norm_index c0 nx"
  let ?rb = "max ?ra (norm_index r1 ny)" and ?cb = "max ?ca (norm_index c1 nx)"
  show ?thesis
  proof (cases "?ra \<le> r \<and> r < ?rb \<and> ?ca \<le> c \<and> c < ?cb")
    case True
    let ?i = "if h = 1 then 0 else r - ?ra" and ?j = "if w = 1 then 0 else c - ?ca"
    have "?i < h" "?j < w" using ok True blk by auto
    moreover have "out ! r ! c = block ! ?i ! ?j"
      unfolding assign_block_out [OF a full ny] nr using True rc by simp
    ultimately show ?thesis by blast
  next
    case False
    have "out ! r ! c = full ! r ! c"
      unfolding assign_block_out [OF a full ny] nr using False rc by auto
    then show ?thesis ..
  qed
qed

lemma mask_nodata_array: "is_array ny nx dem \<Longrightarrow> is_array ny nx (mask_nodata nd dem)"
  by (cases nd) (simp_all add: mask_nodata_def arr_map_array)

lemma sample_offset_pos:
  assumes "sample_offset L tr = Inr inc"
  shows "\<exists>k>0. inc = int k"
proof -
  have "1 \<le> inc" using assms by (auto simp: sample_offset_def split: if_splits)
  then have "0 < nat inc" "inc = int (nat inc)" by simp_all
  then show ?thesis by blast
qed

lemma curvature_raster_success:
  assumes run: "curvature_raster dem0 tr L nd = Inr out" and dem: "is_array ny nx dem0"
  obtains k m where "sample_offset L tr = Inr (int k)" "0 < k" "0 < ny" "0 < nx"
    and "nanmax (arr_abs (raw_curvature (mask_nodata nd dem0) (int k) (mean_cell_size tr))) = Inr m"
    and "assign_block (replicate ny (replicate nx None))
           (int k) (int k + int (min k ny)) (int k) (int k + int (min k nx))
           (arr_div (raw_curvature (mask_nodata nd dem0) (int k) (mean_cell_size tr))
              (2 * curve_max_of m)) = Inr out"
proof -
  let ?D = "mask_nodata nd dem0"
  have D: "is_array ny nx ?D" using dem by (rule mask_nodata_array)
  have nr: "nrows ?D = ny" using D by (rule nrows_array)
  obtain inc where inc: "sample_offset L tr = Inr inc"
    using run by (cases "sample_offset L tr") (simp_all add: curvature_raster_def Let_def)
  then obtain k where k: "0 < k" "inc = int k" using sample_offset_pos by blast
  have ny: "0 < ny" and nx0: "ncols ?D \<noteq> 0"
    using run inc nr by (auto simp: curvature_raster_def Let_def split: if_splits)
  have nc: "ncols ?D = nx" using D ny by (rule ncols_array)
  have nx: "0 < nx" using nx0 nc by simp
  let ?raw = "raw_curvature ?D (int k) (mean_cell_size tr)"
  have raw: "is_array (min k ny) (min k nx) ?raw"
    using D ny nx k(1) by (rule raw_curvature_array)
  obtain m where m: "nanmax (arr_abs ?raw) = Inr m"
    using run inc nr nc ny nx k
    by (cases "nanmax (arr_abs ?raw)") (simp_all add: curvature_raster_def Let_def)
  have blk: "is_array (min k ny) (min k nx) (arr_div ?raw (2 * curve_max_of m))"
    unfolding arr_div_def using raw by (rule arr_map_array)
  have shape: "nrows (arr_div ?raw (2 * curve_max_of m)) = min k ny"
    "ncols (arr_div ?raw (2 * curve_max_of m)) = min k nx"
    using blk k(1) ny nx by (simp_all add: nrows_array ncols_array [of "min k ny" "min k nx"])
  have "assign_block (replicate ny (replicate nx None))
           (int k) (int k + int (min k ny)) (int k) (int k + int (min k nx))
           (arr_div ?raw (2 * curve_max_of m)) = Inr out"
    using run inc nr nc ny nx k m shape by (simp add: curvature_raster_def Let_def)
  then show ?thesis using that inc k m ny nx by simp
qed


lemma stencil_SE_None: "stencil inc d z zW zE zS zN zSW zNE zNW None = None"
  by (simp add: stencil_def fl2_def Let_def split: option.splits)

lemma mask_nodata_nth:
  assumes "is_array ny nx dem" "r < ny" "c < nx"
  shows "mask_nodata (Some nd) dem ! r ! c = (if dem ! r ! c = Some nd then None else dem ! r ! c)"
  using assms by (simp add: mask_nodata_def arr_map_nth)

lemma norm_index_nonneg: "norm_index (int a) n = min a n" "norm_index (int a + int b) n = min (a + b) n"
  by (simp_all add: norm_index_def nat_int_add)

section \<open>The curvature raster on every input\<close>

text \<open>
  C2, amended. When the sentinel is supplied and the function returns a raster, the raster
  has the shape of the DEM and is NaN at every pixel that held the sentinel. (A pixel that
  did not hold it may be NaN as well; see the counterexample below.)
\<close>

theorem nodata_cells_undefined:
  assumes run: "curvature_raster dem tr L (Some nodata) = Inr out"
    and dem: "is_array ny nx dem" and rc: "r < ny" "c < nx"
    and cell: "dem ! r ! c = Some nodata"
  shows "out ! r ! c = None \<and> is_array ny nx out"
proof -
  let ?D = "mask_nodata (Some nodata) dem"
  have D: "is_array ny nx ?D" using dem by (rule mask_nodata_array)
  have Drc: "?D ! r ! c = None" using cell by (simp add: mask_nodata_nth [OF dem rc])
  from run dem obtain k m where k: "0 < k" "0 < ny" "0 < nx"
    and a: "assign_block (replicate ny (replicate nx None))
           (int k) (int k + int (min k ny)) (int k) (int k + int (min k nx))
           (arr_div (raw_curvature ?D (int k) (mean_cell_size tr)) (2 * curve_max_of m)) = Inr out"
    by (rule curvature_raster_success)
  let ?raw = "raw_curvature ?D (int k) (mean_cell_size tr)"
  let ?blk = "arr_div ?raw (2 * curve_max_of m)"
  have full: "is_array ny nx (replicate ny (replicate nx (None::cell)))"
    by (simp add: is_array_iff)
  have raw: "is_array (min k ny) (min k nx) ?raw"
    using D k(2,3,1) by (rule raw_curvature_array)
  have blk: "is_array (min k ny) (min k nx) ?blk"
    unfolding arr_div_def using raw by (rule arr_map_array)
  have nr: "nrows ?blk = min k ny" "ncols ?blk = min k nx"
    "nrows (replicate ny (replicate nx (None::cell))) = ny"
    "ncols (replicate ny (replicate nx (None::cell))) = nx"
    using blk full k by (simp_all add: nrows_array ncols_array [of "min k ny" "min k nx"]
        ncols_array [of ny nx])
  note ok = assign_block_ok [OF a, unfolded nr norm_index_nonneg]
  note out = assign_block_out [OF a full k(2), unfolded nr norm_index_nonneg]
  have arr: "is_array ny nx out" using a full k(2) by (rule assign_block_array)
  show ?thesis
  proof (cases "min k ny \<le> r \<and> r < max (min k ny) (min (k + min k ny) ny) \<and>
                min k nx \<le> c \<and> c < max (min k nx) (min (k + min k nx) nx)")
    case False
    then have "out ! r ! c = None"
      unfolding out using rc by auto
    with arr show ?thesis by simp
  next
    case True
    then have kr: "k \<le> r" "k \<le> c" "r < 2 * k" "c < 2 * k" using rc by auto
    then have mins: "min k ny = k" "min k nx = k" using rc by auto
    let ?i = "r - k" and ?j = "c - k"
    have ij: "?i < min k ny" "?j < min k nx" using kr mins by auto
    have i0: "(if k = 1 then 0 else r - k) = ?i" "(if k = 1 then 0 else c - k) = ?j"
      using kr by auto
    have "out ! r ! c = ?blk ! ?i ! ?j"
      unfolding out mins i0 using kr rc by simp
    also have "\<dots> = map_option (\<lambda>v. v / (2 * curve_max_of m)) (?raw ! ?i ! ?j)"
      unfolding arr_div_def using raw ij by (rule arr_map_nth)
    also have "?raw ! ?i ! ?j = None"
    proof -
      have se: "min (ny - 1) (k + ?i) = r" "min (nx - 1) (k + ?j) = c"
        using kr rc by auto
      show ?thesis
        unfolding raw_curvature_nth [OF D k(2,3,1) ij] se Drc by (rule stencil_SE_None)
    qed
    finally have "out ! r ! c = None" by simp
    with arr show ?thesis by simp
  qed
qed

text \<open>
  C3. Every defined value of the curvature raster lies between -0.5 and 0.5: it is a raw
  value divided by twice \<open>curve_max\<close>, the largest absolute raw value or 0.001 if that is
  larger, so its absolute value is at most one half (\<open>normalised_bound\<close>).
\<close>

theorem curvature_bounded:
  assumes run: "curvature_raster dem tr L nd = Inr out"
    and dem: "is_array ny nx dem" and rc: "r < ny" "c < nx"
    and cell: "out ! r ! c = Some v"
  shows "- (1 / 2) \<le> v \<and> v \<le> 1 / 2"
proof -
  let ?D = "mask_nodata nd dem"
  have D: "is_array ny nx ?D" using dem by (rule mask_nodata_array)
  from run dem obtain k m where k: "0 < k" "0 < ny" "0 < nx"
    and m: "nanmax (arr_abs (raw_curvature ?D (int k) (mean_cell_size tr))) = Inr m"
    and a: "assign_block (replicate ny (replicate nx None))
           (int k) (int k + int (min k ny)) (int k) (int k + int (min k nx))
           (arr_div (raw_curvature ?D (int k) (mean_cell_size tr)) (2 * curve_max_of m)) = Inr out"
    by (rule curvature_raster_success)
  let ?raw = "raw_curvature ?D (int k) (mean_cell_size tr)"
  let ?blk = "arr_div ?raw (2 * curve_max_of m)"
  have full: "is_array ny nx (replicate ny (replicate nx (None::cell)))"
    by (simp add: is_array_iff)
  have raw: "is_array (min k ny) (min k nx) ?raw"
    using D k(2,3,1) by (rule raw_curvature_array)
  have blk: "is_array (min k ny) (min k nx) ?blk"
    unfolding arr_div_def using raw by (rule arr_map_array)
  have pos: "0 < min k ny" "0 < min k nx" using k by simp_all
  from assign_block_cell [OF a full blk pos rc]
  have "\<exists>i<min k ny. \<exists>j<min k nx. out ! r ! c = ?blk ! i ! j"
    using cell rc by auto
  then obtain i j where ij: "i < min k ny" "j < min k nx" "?blk ! i ! j = Some v"
    using cell by auto
  have "?blk ! i ! j \<in> set (concat ?blk)"
    using blk ij(1,2) by (rule array_cell_in_concat)
  then have "Some v \<in> set (concat ?blk)" using ij(3) by simp
  with m have "\<bar>v\<bar> \<le> 1 / 2" by (rule normalised_bound)
  then show ?thesis by (simp add: abs_le_iff) linarith
qed

section \<open>The curvature raster on concrete inputs\<close>

lemma curvature_raster_eval:
  assumes "is_array ny nx (mask_nodata nd dem0)" "0 < ny" "0 < nx"
    and "sample_offset L tr = Inr inc"
    and "raw_curvature (mask_nodata nd dem0) inc (mean_cell_size tr) = raw"
    and "nanmax (arr_abs raw) = Inr m"
  shows "curvature_raster dem0 tr L nd =
     assign_block (replicate ny (replicate nx None))
       inc (inc + int (nrows (arr_div raw (2 * curve_max_of m))))
       inc (inc + int (ncols (arr_div raw (2 * curve_max_of m))))
       (arr_div raw (2 * curve_max_of m))"
proof -
  have "nrows (mask_nodata nd dem0) = ny" "ncols (mask_nodata nd dem0) = nx"
    using assms(1,2) by (simp_all add: nrows_array ncols_array [of ny nx])
  then show ?thesis
    using assms(2-) by (simp add: curvature_raster_def Let_def)
qed

lemma offset_km: "sample_offset 1000 (north_up 1000) = Inr 1"
  by (simp add: sample_offset_def mean_cell_size_def north_up_def py_round_def)

lemma raw_3x3:
  assumes "is_array 3 3 dem"
  shows "raw_curvature dem 1 d =
     [[stencil 1 d (dem ! 0 ! 0) (dem ! 0 ! 0) (dem ! 0 ! 1) (dem ! 1 ! 0) (dem ! 0 ! 0)
         (dem ! 1 ! 0) (dem ! 0 ! 1) (dem ! 0 ! 0) (dem ! 1 ! 1)]]"
proof -
  have a: "is_array (min 1 3) (min 1 3) (raw_curvature dem (int 1) d)"
    using assms by (rule raw_curvature_array) simp_all
  have n: "raw_curvature dem (int 1) d ! 0 ! 0 =
      stencil 1 d (dem ! 0 ! 0) (dem ! 0 ! 0) (dem ! 0 ! 1) (dem ! 1 ! 0) (dem ! 0 ! 0)
         (dem ! 1 ! 0) (dem ! 0 ! 1) (dem ! 0 ! 0) (dem ! 1 ! 1)"
    by (subst raw_curvature_nth [OF assms]) simp_all
  show ?thesis
    using array_tabulate [OF a] n by simp
qed

lemma embed_3x3:
  "assign_block (replicate 3 (replicate 3 None)) 1 (1 + int (nrows [[x]])) 1 (1 + int (ncols [[x]])) [[x]] =
     Inr [[None, None, None], [None, x, None], [None, None, None]]"
  by (simp add: assign_block_def nrows_def ncols_def norm_index_def numeral_eq_Suc)

lemma flat_dem_curvature:
  "curvature_raster flat_dem (north_up 1000) 1000 None =
     Inr [[None, None, None], [None, Some 0, None], [None, None, None]]"
proof -
  have arr: "is_array 3 3 flat_dem" by (simp add: is_array_def flat_dem_def)
  have raw: "raw_curvature flat_dem 1 d = [[Some 0]]" for d
    unfolding raw_3x3 [OF arr] by (simp add: flat_dem_def stencil_def fl2_def)
  have nm: "nanmax (arr_abs [[Some 0]]) = Inr (Some 0)"
    by (simp add: nanmax_def arr_abs_def arr_map_def defined_values_def)
  have dv: "arr_div [[Some 0]] (2 * curve_max_of (Some 0)) = [[Some 0]]"
    by (simp add: arr_div_def arr_map_def)
  have "curvature_raster flat_dem (north_up 1000) 1000 None =
     assign_block (replicate 3 (replicate 3 None))
       1 (1 + int (nrows (arr_div [[Some 0]] (2 * curve_max_of (Some 0)))))
       1 (1 + int (ncols (arr_div [[Some 0]] (2 * curve_max_of (Some 0)))))
       (arr_div [[Some 0]] (2 * curve_max_of (Some 0)))"
    by (rule curvature_raster_eval [where ny = 3 and nx = 3])
       (simp_all add: mask_nodata_def arr offset_km raw nm)
  then show ?thesis unfolding dv embed_3x3 .
qed

lemma gap_dem_curvature:
  "curvature_raster gap_dem (north_up 1000) 1000 (Some (- 9999)) =
     Inr [[None, None, None], [None, None, None], [None, None, None]]"
proof -
  have mask: "mask_nodata (Some (- 9999)) gap_dem =
      [[Some 5, None, Some 5], [Some 5, Some 5, Some 5], [Some 5, Some 5, Some 5]]"
    by (simp add: mask_nodata_def gap_dem_def arr_map_def)
  have arr: "is_array 3 3 (mask_nodata (Some (- 9999)) gap_dem)"
    by (simp add: mask is_array_def)
  have raw: "raw_curvature (mask_nodata (Some (- 9999)) gap_dem) 1 d = [[None]]" for d
    unfolding raw_3x3 [OF arr] by (simp add: mask stencil_def fl2_def)
  have nm: "nanmax (arr_abs [[None]]) = Inr None"
    by (simp add: nanmax_def arr_abs_def arr_map_def defined_values_def)
  have dv: "arr_div [[None]] (2 * curve_max_of None) = [[None]]"
    by (simp add: arr_div_def arr_map_def)
  have "curvature_raster gap_dem (north_up 1000) 1000 (Some (- 9999)) =
     assign_block (replicate 3 (replicate 3 None))
       1 (1 + int (nrows (arr_div [[None]] (2 * curve_max_of None))))
       1 (1 + int (ncols (arr_div [[None]] (2 * curve_max_of None))))
       (arr_div [[None]] (2 * curve_max_of None))"
    by (rule curvature_raster_eval [where ny = 3 and nx = 3])
       (simp_all add: arr offset_km raw nm)
  then show ?thesis unfolding dv embed_3x3 .
qed


lemma origin_undefined:
  assumes run: "curvature_raster dem tr L nd = Inr out" and dem: "is_array ny nx dem"
  shows "out ! 0 ! 0 = None"
proof -
  from run dem obtain k m where k: "0 < k" "0 < ny" "0 < nx"
    and a: "assign_block (replicate ny (replicate nx None))
           (int k) (int k + int (min k ny)) (int k) (int k + int (min k nx))
           (arr_div (raw_curvature (mask_nodata nd dem) (int k) (mean_cell_size tr))
              (2 * curve_max_of m)) = Inr out"
    by (rule curvature_raster_success)
  have full: "is_array ny nx (replicate ny (replicate nx (None::cell)))"
    by (simp add: is_array_iff)
  have "\<not> (min k ny \<le> 0 \<and> 0 < max (min k ny) (min (k + min k ny) ny) \<and>
            min k nx \<le> 0 \<and> 0 < max (min k nx) (min (k + min k nx) nx))"
    using k by (auto simp: min_def)
  then show ?thesis
    unfolding assign_block_out [OF a full k(2), unfolded norm_index_nonneg]
    using k by auto
qed

text \<open>
  C1. On a DEM of constant elevation without nodata the curvature raster is not zero at
  every pixel: with a pixel size of 1000 and the default length scale the offset is 1, and
  of the nine pixels only the one at row 1, column 1 receives a value; the eight others are
  NaN.
\<close>

theorem constant_dem_curvature:
  "curvature_raster flat_dem (north_up 1000) 1000 None =
     Inr [[None, None, None], [None, Some 0, None], [None, None, None]]"
  by (rule flat_dem_curvature)

text \<open>
  C2, as stated, fails: with the sentinel -9999 supplied and held by the cell at row 0,
  column 1 only, the raster is NaN at all nine pixels, the eight valid ones included.
\<close>

theorem nodata_exactness_counterexample:
  "curvature_raster gap_dem (north_up 1000) 1000 (Some (- 9999)) =
     Inr [[None, None, None], [None, None, None], [None, None, None]] \<and>
   gap_dem ! 1 ! 1 = Some 5 \<and> gap_dem ! 1 ! 1 \<noteq> Some (- 9999)"
  using gap_dem_curvature by (simp add: gap_dem_def)

theorem nodata_cells_undefined_witness:
  "curvature_raster gap_dem (north_up 1000) 1000 (Some (- 9999)) =
     Inr [[None, None, None], [None, None, None], [None, None, None]] \<and>
   is_array 3 3 gap_dem \<and> gap_dem ! 0 ! 1 = Some (- 9999) \<and>
   [[None, None, None], [None, None, None], [None, None, None :: cell]] ! 0 ! 1 = None"
  using nodata_cells_undefined [where dem = gap_dem and tr = "north_up 1000" and L = 1000
      and nodata = "- 9999" and ny = 3 and nx = 3 and r = 0 and c = 1
      and out = "[[None, None, None], [None, None, None], [None, None, None]]"]
    gap_dem_curvature
  by (simp add: gap_dem_def is_array_def)

theorem curvature_bounded_witness:
  "curvature_raster flat_dem (north_up 1000) 1000 None =
     Inr [[None, None, None], [None, Some 0, None], [None, None, None]] \<and>
   is_array 3 3 flat_dem \<and> - (1 / 2) \<le> (0::real) \<and> (0::real) \<le> 1 / 2"
  using curvature_bounded [where dem = flat_dem and tr = "north_up 1000" and L = 1000
      and nd = None and ny = 3 and nx = 3 and r = 1 and c = 1 and v = 0
      and out = "[[None, None, None], [None, Some 0, None], [None, None, None]]"]
    flat_dem_curvature
  by (simp add: flat_dem_def is_array_def)

section \<open>The sample offset\<close>

text \<open>
  C4, as stated, fails on a geotransform whose pixel height is positive: with a pixel
  width of 30, a pixel height of 10 and a length scale of 1000 the code divides by
  (30 - 10) / 2 = 10 and samples at offset 100, while the average of the absolute values
  is 20 and gives 50.
\<close>

theorem sample_offset_counterexample:
  "sample_offset 1000 \<lparr>aff_a = 30, aff_b = 0, aff_c = 0, aff_d = 0, aff_e = 10, aff_f = 0\<rparr> = Inr 100 \<and>
   spec_sample_offset 1000 \<lparr>aff_a = 30, aff_b = 0, aff_c = 0, aff_d = 0, aff_e = 10, aff_f = 0\<rparr> = 50"
  by (simp add: sample_offset_def spec_sample_offset_def mean_cell_size_def
      spec_mean_cell_size_def py_round_def)

lemma edge_clamp_cases:
  "i < n \<Longrightarrow> edge_clamp n (int i) = i"
  "i < k \<Longrightarrow> 0 < n \<Longrightarrow> edge_clamp n (int i - int k) = 0"
  "0 < n \<Longrightarrow> edge_clamp n (int i + int k) = min (n - 1) (k + i)"
  by (auto simp: edge_clamp_def min_def max_def)

text \<open>
  C4, amended. The mean cell size is half of the pixel width minus the pixel height, and a
  zero mean raises. On a geotransform with a non-negative pixel width and a non-positive
  pixel height, not both zero, this is the average of the absolute values, and the offset
  is the one the specification gives. The raw curvature of a pixel is the stencil over the
  centre and the eight cells at that offset to the west, east, south, north, south-west,
  north-east, north-west and south-east, with the edges replicated.
\<close>

theorem sample_offset_north_up:
  "sample_offset L tr =
     (if aff_a tr - aff_e tr = 0 then Inl ZeroDivisionError
      else Inr (max 1 (py_round (L / ((aff_a tr - aff_e tr) / 2))))) \<and>
   (0 \<le> aff_a tr \<and> aff_e tr \<le> 0 \<and> aff_a tr - aff_e tr \<noteq> 0 \<longrightarrow>
      sample_offset L tr = Inr (spec_sample_offset L tr)) \<and>
   (sample_offset L tr = Inr inc \<and> is_array ny nx dem \<and> 0 < ny \<and> 0 < nx \<and>
    int i < min inc (int ny) \<and> int j < min inc (int nx) \<longrightarrow>
      raw_curvature dem inc d ! i ! j =
        stencil inc d (sampled dem (int i) (int j))
          (sampled dem (int i) (int j - inc)) (sampled dem (int i) (int j + inc))
          (sampled dem (int i + inc) (int j)) (sampled dem (int i - inc) (int j))
          (sampled dem (int i + inc) (int j - inc)) (sampled dem (int i - inc) (int j + inc))
          (sampled dem (int i - inc) (int j - inc)) (sampled dem (int i + inc) (int j + inc)))"
proof -
  have m: "mean_cell_size tr = (aff_a tr - aff_e tr) / 2"
    by (simp add: mean_cell_size_def)
  have s: "spec_mean_cell_size tr = mean_cell_size tr" if "0 \<le> aff_a tr" "aff_e tr \<le> 0"
    using that by (simp add: spec_mean_cell_size_def mean_cell_size_def)
  have north: "sample_offset L tr = Inr (spec_sample_offset L tr)"
    if "0 \<le> aff_a tr" "aff_e tr \<le> 0" "aff_a tr - aff_e tr \<noteq> 0"
    using that by (simp add: sample_offset_def spec_sample_offset_def s) (simp add: m)
  have general: "sample_offset L tr =
     (if aff_a tr - aff_e tr = 0 then Inl ZeroDivisionError
      else Inr (max 1 (py_round (L / ((aff_a tr - aff_e tr) / 2)))))"
    unfolding sample_offset_def m by simp
  have samples: "raw_curvature dem inc d ! i ! j =
        stencil inc d (sampled dem (int i) (int j))
          (sampled dem (int i) (int j - inc)) (sampled dem (int i) (int j + inc))
          (sampled dem (int i + inc) (int j)) (sampled dem (int i - inc) (int j))
          (sampled dem (int i + inc) (int j - inc)) (sampled dem (int i - inc) (int j + inc))
          (sampled dem (int i - inc) (int j - inc)) (sampled dem (int i + inc) (int j + inc))"
    if off: "sample_offset L tr = Inr inc" and dem: "is_array ny nx dem" and pos: "0 < ny" "0 < nx"
      and ij: "int i < min inc (int ny)" "int j < min inc (int nx)"
  proof -
    from off obtain k where k: "0 < k" "inc = int k" using sample_offset_pos by blast
    have ij': "i < min k ny" "j < min k nx" using ij k by simp_all
    have sh: "nrows dem = ny" "ncols dem = nx"
      using dem pos by (simp_all add: nrows_array ncols_array [of ny nx])
    have cl: "edge_clamp ny (int i) = i" "edge_clamp nx (int j) = j"
      "edge_clamp ny (int i - int k) = 0" "edge_clamp nx (int j - int k) = 0"
      "edge_clamp ny (int i + int k) = min (ny - 1) (k + i)"
      "edge_clamp nx (int j + int k) = min (nx - 1) (k + j)"
      using ij' pos by (simp_all add: edge_clamp_cases)
    show ?thesis
      unfolding k(2) raw_curvature_nth [OF dem pos k(1) ij'] sampled_def sh cl ..
  qed
  from north general samples show ?thesis by blast
qed

theorem sample_offset_north_up_witness:
  "sample_offset 1000 (north_up 1000) = Inr 1 \<and> spec_sample_offset 1000 (north_up 1000) = 1 \<and>
   is_array 3 3 flat_dem \<and>
   raw_curvature flat_dem 1 1000 ! 0 ! 0 =
     stencil 1 1000 (Some 5) (Some 5) (Some 5) (Some 5) (Some 5) (Some 5) (Some 5) (Some 5) (Some 5)"
proof -
  have a: "is_array 3 3 flat_dem" by (simp add: is_array_def flat_dem_def)
  have sp: "spec_sample_offset 1000 (north_up 1000) = 1"
    by (simp add: north_up_def spec_sample_offset_def spec_mean_cell_size_def py_round_def)
  have sm: "sampled flat_dem 0 0 = Some 5" "sampled flat_dem 0 (- 1) = Some 5"
    "sampled flat_dem 0 1 = Some 5" "sampled flat_dem 1 0 = Some 5"
    "sampled flat_dem (- 1) 0 = Some 5" "sampled flat_dem 1 (- 1) = Some 5"
    "sampled flat_dem (- 1) 1 = Some 5" "sampled flat_dem (- 1) (- 1) = Some 5"
    "sampled flat_dem 1 1 = Some 5"
    by (simp_all add: sampled_def edge_clamp_def nrows_def ncols_def flat_dem_def)
  show ?thesis
    using sample_offset_north_up [where L = 1000 and tr = "north_up 1000" and inc = 1
        and ny = 3 and nx = 3 and dem = flat_dem and i = 0 and j = 0 and d = 1000]
      a offset_km sp
    by (simp add: sm north_up_def)
qed

section \<open>The cache of the curvature output\<close>

lemma dir_chain_length: "p \<in> set (dir_chain acc cs) \<Longrightarrow> length p \<le> length acc + length cs"
proof (induction cs arbitrary: acc)
  case Nil
  then show ?case by simp
next
  case (Cons ch cs)
  then show ?case by (fastforce split: if_splits)
qed

lemma join2_longer: "b \<noteq> [] \<Longrightarrow> hd b \<noteq> CHR ''/'' \<Longrightarrow> length p < length (join2 p b)"
  by (simp add: join2_def)

lemma curvature_path_fresh:
  "curvature_path_of wd \<notin> set (dir_chain [] (output_dir_of wd))"
proof
  assume "curvature_path_of wd \<in> set (dir_chain [] (output_dir_of wd))"
  then have "length (curvature_path_of wd) \<le> length (output_dir_of wd)"
    using dir_chain_length by fastforce
  moreover have "length (output_dir_of wd) < length (curvature_path_of wd)"
    unfolding curvature_path_of_def path_join_def by (simp add: join2_longer)
  ultimately show False by simp
qed

lemma makedirs_files: "fs_files (makedirs p fs) = fs_files fs"
  by (simp add: makedirs_def)

lemma makedirs_idem: "makedirs p (makedirs p fs) = makedirs p fs"
  by (simp add: makedirs_def)

lemma makedirs_write:
  "makedirs p (makedirs p fs\<lparr>fs_files := f\<rparr>) = makedirs p fs\<lparr>fs_files := f\<rparr>"
  by (simp add: makedirs_def)

lemma path_exists_makedirs:
  "path_exists (makedirs (output_dir_of wd) fs) (curvature_path_of wd) =
   path_exists fs (curvature_path_of wd)"
  using curvature_path_fresh [of wd] by (simp add: path_exists_def makedirs_def)

lemma cached_run:
  assumes "path_exists fs (curvature_path_of wd)"
  shows "compute_topographic_curvature fs dem_path wd L nd =
           (Inr (curvature_path_of wd), makedirs (output_dir_of wd) fs)"
  using assms path_exists_makedirs [of wd fs]
  by (simp add: compute_topographic_curvature_def Let_def curvature_path_of_def)

lemma successful_run:
  assumes "compute_topographic_curvature fs dem_path wd L nd = (Inr p, fs1)"
  shows "p = curvature_path_of wd \<and> path_exists fs1 p \<and> makedirs (output_dir_of wd) fs1 = fs1"
proof (cases "path_exists fs (curvature_path_of wd)")
  case True
  from assms show ?thesis
    unfolding cached_run [OF True]
    using True path_exists_makedirs [of wd fs] by (auto simp: makedirs_idem)
next
  case False
  then have F: "\<not> path_exists (makedirs (output_dir_of wd) fs)
      (path_join (output_dir_of wd) [''curvature.tif''])"
    using path_exists_makedirs [of wd fs] by (simp add: curvature_path_of_def)
  from assms have "(case fs_files (makedirs (output_dir_of wd) fs) dem_path of
              Some (GeoTiff src) \<Rightarrow>
                (case curvature_raster (band src) (transform src) L nd of
                   Inl e \<Rightarrow> (Inl e, makedirs (output_dir_of wd) fs)
                 | Inr full_curv \<Rightarrow>
                     (Inr (path_join (output_dir_of wd) [''curvature.tif'']),
                      makedirs (output_dir_of wd) fs\<lparr>fs_files :=
                        (fs_files (makedirs (output_dir_of wd) fs))
                          (path_join (output_dir_of wd) [''curvature.tif''] \<mapsto>
                            GeoTiff (src\<lparr>band := full_curv, dtype := ''float32'',
                                          band_count := 1\<rparr>))\<rparr>))
            | _ \<Rightarrow> (Inl (RasterioIOError dem_path), makedirs (output_dir_of wd) fs)) = (Inr p, fs1)"
    unfolding compute_topographic_curvature_def Let_def by (simp only: F if_False)
  then show ?thesis
    by (auto simp: curvature_path_of_def path_exists_def makedirs_write
        split: option.splits content.splits sum.splits)
qed

lemma canonical_path:
  assumes "wd \<noteq> []" "last wd \<noteq> CHR ''/''"
  shows "curvature_path_of wd = wd @ ''/inputs/dem/curvature.tif''"
  using assms by (simp add: curvature_path_of_def output_dir_of_def path_join_def join2_def)

text \<open>
  C5. When something exists at the path of the curvature output, the function returns that
  path, computes nothing and leaves every file as it is; the path is
  \<open>inputs/dem/curvature.tif\<close> under the working directory. Hence a second call right after
  a call that returned is a no-op: it returns the same path and the file system is unchanged.
\<close>

theorem curvature_cache_idempotent:
  "(path_exists fs (curvature_path_of wd) \<longrightarrow>
      compute_topographic_curvature fs dem_path wd L nd =
        (Inr (curvature_path_of wd), makedirs (output_dir_of wd) fs) \<and>
      fs_files (makedirs (output_dir_of wd) fs) = fs_files fs) \<and>
   (compute_topographic_curvature fs dem_path wd L nd = (Inr p, fs1) \<longrightarrow>
      compute_topographic_curvature fs1 dem_path wd L nd = (Inr p, fs1)) \<and>
   (wd \<noteq> [] \<and> last wd \<noteq> CHR ''/'' \<longrightarrow>
      curvature_path_of wd = wd @ ''/inputs/dem/curvature.tif'')"
proof -
  have "compute_topographic_curvature fs1 dem_path wd L nd = (Inr p, fs1)"
    if "compute_topographic_curvature fs dem_path wd L nd = (Inr p, fs1)"
  proof -
    from successful_run [OF that]
    have p: "p = curvature_path_of wd" and ex: "path_exists fs1 (curvature_path_of wd)"
      and mk: "makedirs (output_dir_of wd) fs1 = fs1" by auto
    show ?thesis unfolding cached_run [OF ex] p mk ..
  qed
  then show ?thesis
    by (simp add: cached_run makedirs_files canonical_path)
qed


lemma wd_paths:
  "output_dir_of ''wd'' = ''wd/inputs/dem''"
  "curvature_path_of ''wd'' = ''wd/inputs/dem/curvature.tif''"
  "path_join ''wd/inputs/dem'' [''curvature.tif''] = ''wd/inputs/dem/curvature.tif''"
  by (simp_all add: output_dir_of_def curvature_path_of_def path_join_def join2_def)

lemma wd_chain: "set (dir_chain [] ''wd/inputs/dem'') = {''wd'', ''wd/inputs'', ''wd/inputs/dem''}"
  by simp

lemma flat_fs_run:
  "compute_topographic_curvature flat_fs ''dem.tif'' ''wd'' 1000 None =
     (Inr ''wd/inputs/dem/curvature.tif'', flat_fs_done)"
proof -
  let ?fs1 = "flat_fs\<lparr>fs_dirs := {''wd'', ''wd/inputs'', ''wd/inputs/dem''}\<rparr>"
  have mk: "makedirs ''wd/inputs/dem'' flat_fs = ?fs1"
    unfolding makedirs_def wd_chain by (simp add: flat_fs_def)
  have ex: "\<not> path_exists ?fs1 ''wd/inputs/dem/curvature.tif''"
    by (simp add: path_exists_def flat_fs_def)
  have rd: "fs_files ?fs1 ''dem.tif'' = Some (GeoTiff flat_tif)"
    by (simp add: flat_fs_def)
  have cv: "curvature_raster (band flat_tif) (transform flat_tif) 1000 None =
      Inr [[None, None, None], [None, Some 0, None], [None, None, None]]"
    using flat_dem_curvature by (simp add: flat_tif_def)
  have "compute_topographic_curvature flat_fs ''dem.tif'' ''wd'' 1000 None =
     (Inr ''wd/inputs/dem/curvature.tif'',
      ?fs1\<lparr>fs_files := (fs_files ?fs1)(''wd/inputs/dem/curvature.tif'' \<mapsto>
        GeoTiff (flat_tif\<lparr>band := [[None, None, None], [None, Some 0, None], [None, None, None]],
                          dtype := ''float32'', band_count := 1\<rparr>))\<rparr>)"
    unfolding compute_topographic_curvature_def Let_def wd_paths mk
    by (simp only: ex if_False rd option.case content.case cv sum.case)
  also have "?fs1\<lparr>fs_files := (fs_files ?fs1)(''wd/inputs/dem/curvature.tif'' \<mapsto>
        GeoTiff (flat_tif\<lparr>band := [[None, None, None], [None, Some 0, None], [None, None, None]],
                          dtype := ''float32'', band_count := 1\<rparr>))\<rparr> = flat_fs_done"
    by (simp add: flat_fs_def flat_fs_done_def)
  finally show ?thesis .
qed



lemma flat_fs_done_cached: "path_exists flat_fs_done ''wd/inputs/dem/curvature.tif''"
  by (simp add: path_exists_def flat_fs_done_def)

theorem curvature_cache_idempotent_witness:
  "compute_topographic_curvature flat_fs ''dem.tif'' ''wd'' 1000 None =
     (Inr ''wd/inputs/dem/curvature.tif'', flat_fs_done) \<and>
   path_exists flat_fs_done (curvature_path_of ''wd'') \<and>
   compute_topographic_curvature flat_fs_done ''dem.tif'' ''wd'' 1000 None =
     (Inr ''wd/inputs/dem/curvature.tif'', flat_fs_done) \<and>
   fs_files (makedirs (output_dir_of ''wd'') flat_fs_done) = fs_files flat_fs_done \<and>
   curvature_path_of ''wd'' = ''wd/inputs/dem/curvature.tif''"
  using curvature_cache_idempotent [where fs = flat_fs and dem_path = "''dem.tif''" and wd = "''wd''"
      and L = 1000 and nd = None and p = "''wd/inputs/dem/curvature.tif''" and ?fs1.0 = flat_fs_done]
    curvature_cache_idempotent [where fs = flat_fs_done and dem_path = "''dem.tif''"
      and wd = "''wd''" and L = 1000 and nd = None and p = "''wd/inputs/dem/curvature.tif''"
      and ?fs1.0 = flat_fs_done]
    flat_fs_run flat_fs_done_cached
  by (simp add: wd_paths)

section \<open>The output writer\<close>

lemma np_concatenate_frames:
  assumes "np_concatenate data_list = Inr stack"
  shows "stack = concat data_list"
  using assms by (auto simp: np_concatenate_def split: if_splits list.splits)

lemma make_data_array_props:
  assumes "make_data_array stack time_list ys xs units description = Inr da"
  shows "da_dims da = [''time'', ''y'', ''x''] \<and> da_units da = units \<and>
         da_description da = description \<and> da_time da = time_list \<and> da_y da = ys \<and>
         da_x da = xs \<and> da_data da = stack \<and> length stack = length time_list \<and>
         list_all (is_array (length ys) (length xs)) stack"
  using assms by (auto simp: make_data_array_def split: if_splits)

lemma build_dataset_vars_props:
  assumes "build_dataset_vars vars time_list ys xs = Inr das"
  shows "map fst das = map fst vars \<and>
         (\<forall>k<length vars.
            da_dims (snd (das ! k)) = [''time'', ''y'', ''x''] \<and>
            da_units (snd (das ! k)) = fst (snd (snd (vars ! k))) \<and>
            da_description (snd (das ! k)) = snd (snd (snd (vars ! k))) \<and>
            da_time (snd (das ! k)) = time_list \<and>
            da_y (snd (das ! k)) = ys \<and> da_x (snd (das ! k)) = xs \<and>
            da_data (snd (das ! k)) = concat (fst (snd (vars ! k))) \<and>
            length (da_data (snd (das ! k))) = length time_list \<and>
            list_all (is_array (length ys) (length xs)) (da_data (snd (das ! k))))"
  using assms
proof (induction vars arbitrary: das)
  case Nil
  then show ?case by simp
next
  case (Cons v vars)
  obtain name dl units description where v: "v = (name, dl, units, description)"
    by (cases v) auto
  from Cons.prems obtain stack da rest where
    st: "np_concatenate dl = Inr stack"
    and da: "make_data_array stack time_list ys xs units description = Inr da"
    and rest: "build_dataset_vars vars time_list ys xs = Inr rest"
    and das: "das = (name, da) # rest"
    by (auto simp: v split: sum.splits)
  note p = make_data_array_props [OF da] np_concatenate_frames [OF st]
  note ih = Cons.IH [OF rest]
  show ?case
  proof (intro conjI allI impI)
    show "map fst das = map fst (v # vars)" using ih by (simp add: das v)
  next
    fix k assume "k < length (v # vars)"
    then show "da_dims (snd (das ! k)) = [''time'', ''y'', ''x'']"
      "da_units (snd (das ! k)) = fst (snd (snd ((v # vars) ! k)))"
      "da_description (snd (das ! k)) = snd (snd (snd ((v # vars) ! k)))"
      "da_time (snd (das ! k)) = time_list"
      "da_y (snd (das ! k)) = ys" "da_x (snd (das ! k)) = xs"
      "da_data (snd (das ! k)) = concat (fst (snd ((v # vars) ! k)))"
      "length (da_data (snd (das ! k))) = length time_list"
      "list_all (is_array (length ys) (length xs)) (da_data (snd (das ! k)))"
      using p ih by (cases k; simp add: das v)+
  qed
qed


text \<open>
  C7. Whenever the writer returns, the dataset stored at the output path has one array per
  entry of \<open>variables_dict\<close>, under the same name and in the same order; each array has the
  dimensions (time, y, x), one frame of the DEM's shape per timestamp, the attributes
  \<open>units\<close> and \<open>description\<close> of its entry, and the pixel-centre coordinates: x at column i is
  i times the pixel width plus the x origin plus half the pixel width, y at row j is j times
  the pixel height plus the y origin plus half the pixel height.
\<close>

theorem netcdf_layout:
  assumes "write_downscaled_to_netcdf fs vars time_list (height, width) tr crs_name out_nc = (None, fs')"
  shows "\<exists>ds. fs_files fs' out_nc = Some (NetCDF ds) \<and>
           map fst (ds_vars ds) = map fst vars \<and>
           (\<forall>k<length vars.
              da_dims (snd (ds_vars ds ! k)) = [''time'', ''y'', ''x''] \<and>
              length (da_data (snd (ds_vars ds ! k))) = length time_list \<and>
              list_all (is_array height width) (da_data (snd (ds_vars ds ! k))) \<and>
              da_units (snd (ds_vars ds ! k)) = fst (snd (snd (vars ! k))) \<and>
              da_description (snd (ds_vars ds ! k)) = snd (snd (snd (vars ! k))) \<and>
              length (da_x (snd (ds_vars ds ! k))) = width \<and>
              length (da_y (snd (ds_vars ds ! k))) = height \<and>
              (\<forall>i<width. da_x (snd (ds_vars ds ! k)) ! i =
                  real i * aff_a tr + aff_c tr + aff_a tr / 2) \<and>
              (\<forall>j<height. da_y (snd (ds_vars ds ! k)) ! j =
                  real j * aff_e tr + aff_f tr + aff_e tr / 2))"
proof -
  let ?xs = "map (\<lambda>i. real i * aff_a tr + aff_c tr + aff_a tr / 2) [0..<width]"
  let ?ys = "map (\<lambda>j. real j * aff_e tr + aff_f tr + aff_e tr / 2) [0..<height]"
  from assms obtain das where
    b: "build_dataset_vars vars time_list ?ys ?xs = Inr das"
    and f: "fs_files fs' out_nc =
      Some (NetCDF \<lparr>ds_vars = das, ds_transform = Some tr, ds_crs = Some crs_name\<rparr>)"
    by (auto simp: write_downscaled_to_netcdf_def Let_def split: sum.splits if_splits)
  note p = build_dataset_vars_props [OF b]
  let ?ds = "\<lparr>ds_vars = das, ds_transform = Some tr, ds_crs = Some crs_name\<rparr>"
  have "map fst (ds_vars ?ds) = map fst vars" using p by simp
  moreover have "\<forall>k<length vars.
              da_dims (snd (ds_vars ?ds ! k)) = [''time'', ''y'', ''x''] \<and>
              length (da_data (snd (ds_vars ?ds ! k))) = length time_list \<and>
              list_all (is_array height width) (da_data (snd (ds_vars ?ds ! k))) \<and>
              da_units (snd (ds_vars ?ds ! k)) = fst (snd (snd (vars ! k))) \<and>
              da_description (snd (ds_vars ?ds ! k)) = snd (snd (snd (vars ! k))) \<and>
              length (da_x (snd (ds_vars ?ds ! k))) = width \<and>
              length (da_y (snd (ds_vars ?ds ! k))) = height \<and>
              (\<forall>i<width. da_x (snd (ds_vars ?ds ! k)) ! i =
                  real i * aff_a tr + aff_c tr + aff_a tr / 2) \<and>
              (\<forall>j<height. da_y (snd (ds_vars ?ds ! k)) ! j =
                  real j * aff_e tr + aff_f tr + aff_e tr / 2)"
  proof (intro allI impI)
    fix k assume k: "k < length vars"
    from p k have q: "da_dims (snd (das ! k)) = [''time'', ''y'', ''x'']"
      "da_units (snd (das ! k)) = fst (snd (snd (vars ! k)))"
      "da_description (snd (das ! k)) = snd (snd (snd (vars ! k)))"
      "da_y (snd (das ! k)) = ?ys" "da_x (snd (das ! k)) = ?xs"
      "length (da_data (snd (das ! k))) = length time_list"
      "list_all (is_array (length ?ys) (length ?xs)) (da_data (snd (das ! k)))"
      by blast+
    from q(7) have "list_all (is_array height width) (da_data (snd (das ! k)))" by simp
    then show "da_dims (snd (ds_vars ?ds ! k)) = [''time'', ''y'', ''x''] \<and>
              length (da_data (snd (ds_vars ?ds ! k))) = length time_list \<and>
              list_all (is_array height width) (da_data (snd (ds_vars ?ds ! k))) \<and>
              da_units (snd (ds_vars ?ds ! k)) = fst (snd (snd (vars ! k))) \<and>
              da_description (snd (ds_vars ?ds ! k)) = snd (snd (snd (vars ! k))) \<and>
              length (da_x (snd (ds_vars ?ds ! k))) = width \<and>
              length (da_y (snd (ds_vars ?ds ! k))) = height \<and>
              (\<forall>i<width. da_x (snd (ds_vars ?ds ! k)) ! i =
                  real i * aff_a tr + aff_c tr + aff_a tr / 2) \<and>
              (\<forall>j<height. da_y (snd (ds_vars ?ds ! k)) ! j =
                  real j * aff_e tr + aff_f tr + aff_e tr / 2)"
      using q(1-6) by simp
  qed
  ultimately show ?thesis using f by blast
qed


lemma one_variable_written:
  "fst (write_downscaled_to_netcdf empty_fs one_variable [0] (1, 2) (north_up 10)
          ''EPSG:32632'' ''out/T.nc'') = None"
proof -
  have c: "np_concatenate [[[[Some 280, Some 281]]]] = Inr [[[Some 280, Some 281]]]"
    by (simp add: np_concatenate_def is_array_def nrows_def ncols_def)
  have d: "dirname ''out/T.nc'' = ''out''"
    by (simp add: dirname_def)
  show ?thesis
    by (simp add: write_downscaled_to_netcdf_def one_variable_def c d make_data_array_def
        is_array_def Let_def)
qed

theorem netcdf_layout_witness:
  "fst (write_downscaled_to_netcdf empty_fs one_variable [0] (1, 2) (north_up 10)
          ''EPSG:32632'' ''out/T.nc'') = None \<and>
   (\<exists>ds. fs_files (snd (write_downscaled_to_netcdf empty_fs one_variable [0] (1, 2) (north_up 10)
                ''EPSG:32632'' ''out/T.nc'')) ''out/T.nc'' = Some (NetCDF ds) \<and>
         map fst (ds_vars ds) = [''T2m''] \<and>
         da_dims (snd (ds_vars ds ! 0)) = [''time'', ''y'', ''x''] \<and>
         da_units (snd (ds_vars ds ! 0)) = ''K'' \<and>
         da_x (snd (ds_vars ds ! 0)) ! 1 = 15 \<and>
         da_y (snd (ds_vars ds ! 0)) ! 0 = - 5)"
proof -
  let ?run = "write_downscaled_to_netcdf empty_fs one_variable [0] (1, 2) (north_up 10)
          ''EPSG:32632'' ''out/T.nc''"
  have run: "?run = (None, snd ?run)"
    using one_variable_written by (simp add: prod_eq_iff)
  from netcdf_layout [OF run] obtain ds where
    ds: "fs_files (snd ?run) ''out/T.nc'' = Some (NetCDF ds)"
    and names: "map fst (ds_vars ds) = map fst one_variable"
    and var: "\<forall>k<length one_variable.
              da_dims (snd (ds_vars ds ! k)) = [''time'', ''y'', ''x''] \<and>
              length (da_data (snd (ds_vars ds ! k))) = length [0::int] \<and>
              list_all (is_array 1 2) (da_data (snd (ds_vars ds ! k))) \<and>
              da_units (snd (ds_vars ds ! k)) = fst (snd (snd (one_variable ! k))) \<and>
              da_description (snd (ds_vars ds ! k)) = snd (snd (snd (one_variable ! k))) \<and>
              length (da_x (snd (ds_vars ds ! k))) = 2 \<and>
              length (da_y (snd (ds_vars ds ! k))) = 1 \<and>
              (\<forall>i<2. da_x (snd (ds_vars ds ! k)) ! i =
                  real i * aff_a (north_up 10) + aff_c (north_up 10) + aff_a (north_up 10) / 2) \<and>
              (\<forall>j<1. da_y (snd (ds_vars ds ! k)) ! j =
                  real j * aff_e (north_up 10) + aff_f (north_up 10) + aff_e (north_up 10) / 2)"
    by blast
  from var have v0: "da_dims (snd (ds_vars ds ! 0)) = [''time'', ''y'', ''x'']"
    "da_units (snd (ds_vars ds ! 0)) = ''K''"
    "da_x (snd (ds_vars ds ! 0)) ! 1 = 15" "da_y (snd (ds_vars ds ! 0)) ! 0 = - 5"
    by (simp_all add: one_variable_def north_up_def)
  show ?thesis
    using one_variable_written ds names v0 by (auto simp: one_variable_def)
qed


section \<open>The curvature call of the entry point\<close>

lemma prepare_inputs_nodata:
  "prepare_inputs get_era5 os_system (config(''dem_nodata'' := x)) fs =
   prepare_inputs get_era5 os_system config fs"
  by (simp add: prepare_inputs_def config_item_def config_path_item_def Let_def)

text \<open>
  C10. The entry point calls \<open>compute_topographic_curvature\<close> with the DEM path and the
  working directory only, so the length scale is 1000 and the sentinel is None whatever the
  configuration holds under \<open>dem_nodata\<close>: the outcome up to and including the curvature is
  the same for every value of that key, present or absent.
\<close>

theorem curvature_call_ignores_nodata:
  "run_micropezzomet_terrain get_era5 os_system (config(''dem_nodata'' := x)) fs =
     run_micropezzomet_terrain get_era5 os_system config fs \<and>
   run_micropezzomet_terrain get_era5 os_system config fs =
     (case prepare_inputs get_era5 os_system config fs of
        (Inl e, fs3) \<Rightarrow> (Some e, fs3)
      | (Inr (dem_path, wd), fs3) \<Rightarrow>
          (case compute_topographic_curvature fs3 dem_path wd 1000 None of
             (Inl e, fs4) \<Rightarrow> (Some e, fs4)
           | (Inr curvature_path, fs4) \<Rightarrow> (None, fs4)))"
  by (simp add: run_micropezzomet_terrain_def prepare_inputs_nodata)

lemma hole_dem_unmasked:
  "\<exists>v. curvature_raster hole_dem (north_up 1000) 1000 None =
     Inr [[None, None, None], [None, Some v, None], [None, None, None]]"
proof -
  have arr: "is_array 3 3 hole_dem" by (simp add: is_array_def hole_dem_def)
  obtain u where raw: "raw_curvature hole_dem 1 (mean_cell_size (north_up 1000)) = [[Some u]]"
    unfolding raw_3x3 [OF arr] by (simp add: hole_dem_def stencil_def fl2_def)
  have nm: "nanmax (arr_abs [[Some u]]) = Inr (Some \<bar>u\<bar>)"
    by (simp add: nanmax_def arr_abs_def arr_map_def defined_values_def)
  have dv: "arr_div [[Some u]] (2 * curve_max_of (Some \<bar>u\<bar>)) =
      [[Some (u / (2 * curve_max_of (Some \<bar>u\<bar>)))]]"
    by (simp add: arr_div_def arr_map_def)
  have "curvature_raster hole_dem (north_up 1000) 1000 None =
     assign_block (replicate 3 (replicate 3 None))
       1 (1 + int (nrows (arr_div [[Some u]] (2 * curve_max_of (Some \<bar>u\<bar>)))))
       1 (1 + int (ncols (arr_div [[Some u]] (2 * curve_max_of (Some \<bar>u\<bar>)))))
       (arr_div [[Some u]] (2 * curve_max_of (Some \<bar>u\<bar>)))"
    by (rule curvature_raster_eval [where ny = 3 and nx = 3])
       (simp_all add: mask_nodata_def arr offset_km raw nm)
  then show ?thesis unfolding dv embed_3x3 by blast
qed

lemma hole_dem_masked:
  "curvature_raster hole_dem (north_up 1000) 1000 (Some (- 9999)) =
     Inr [[None, None, None], [None, None, None], [None, None, None]]"
proof -
  have mask: "mask_nodata (Some (- 9999)) hole_dem =
      [[Some 5, Some 5, Some 5], [Some 5, None, Some 5], [Some 5, Some 5, Some 5]]"
    by (simp add: mask_nodata_def hole_dem_def arr_map_def)
  have arr: "is_array 3 3 (mask_nodata (Some (- 9999)) hole_dem)"
    by (simp add: mask is_array_def)
  have raw: "raw_curvature (mask_nodata (Some (- 9999)) hole_dem) 1 d = [[None]]" for d
    unfolding raw_3x3 [OF arr] by (simp add: mask stencil_def fl2_def)
  have nm: "nanmax (arr_abs [[None]]) = Inr None"
    by (simp add: nanmax_def arr_abs_def arr_map_def defined_values_def)
  have dv: "arr_div [[None]] (2 * curve_max_of None) = [[None]]"
    by (simp add: arr_div_def arr_map_def)
  have "curvature_raster hole_dem (north_up 1000) 1000 (Some (- 9999)) =
     assign_block (replicate 3 (replicate 3 None))
       1 (1 + int (nrows (arr_div [[None]] (2 * curve_max_of None))))
       1 (1 + int (ncols (arr_div [[None]] (2 * curve_max_of None))))
       (arr_div [[None]] (2 * curve_max_of None))"
    by (rule curvature_raster_eval [where ny = 3 and nx = 3])
       (simp_all add: arr offset_km raw nm)
  then show ?thesis unfolding dv embed_3x3 .
qed

lemma makedirs_present: "set (dir_chain [] p) \<subseteq> fs_dirs fs \<Longrightarrow> makedirs p fs = fs"
  by (simp add: makedirs_def Un_absorb2)

lemma hole_prepare:
  "prepare_inputs no_download shell_ok full_config hole_fs =
     (Inr (''dem.tif'', ''wd''),
      hole_fs\<lparr>fs_dirs := {''wd'', ''wd/inputs'', ''wd/inputs/climate'', ''wd/inputs/dem'', ''wd/outputs''}\<rparr>)"
proof -
  have items: "config_path_item full_config ''working_directory'' = Inr ''wd''"
    "config_item full_config ''start_date'' = Inr (JStr ''2020-01-01'')"
    "config_item full_config ''end_date'' = Inr (JStr ''2020-01-31'')"
    "config_path_item full_config ''dem_file'' = Inr ''dem.tif''"
    "config_item full_config ''era_file'' = Inr (JStr ''era.nc'')"
    "config_item full_config ''earthdatahub_pat'' = Inr (JStr ''token'')"
    "config_item full_config ''time_step'' = Inr (JStr ''1H'')"
    "config_item full_config ''jobs_parallel_downscale'' = Inr (JNum 1)"
    "config_item full_config ''jobs_parallel_download'' = Inr (JNum 1)"
    by (simp_all add: config_item_def config_path_item_def full_config_def)
  have folders: "create_full_micromet_folder_structure ''wd'' hole_fs =
      hole_fs\<lparr>fs_dirs := {''wd'', ''wd/inputs'', ''wd/inputs/climate'', ''wd/inputs/dem'', ''wd/outputs''}\<rparr>"
    by (auto simp: create_full_micromet_folder_structure_def makedirs_def path_join_def join2_def
        hole_fs_def)
  let ?F = "hole_fs\<lparr>fs_dirs := {''wd'', ''wd/inputs'', ''wd/inputs/climate'', ''wd/inputs/dem'', ''wd/outputs''}\<rparr>"
  have again: "makedirs ''wd/inputs/dem'' ?F = ?F"
    by (rule makedirs_present) simp
  have od: "path_join ''wd'' [''inputs'', ''dem''] = ''wd/inputs/dem''"
    by (simp add: path_join_def join2_def)
  have slope: "snd (compute_slope_aspect shell_ok ''dem.tif'' ''wd'' ?F) = ?F"
    unfolding compute_slope_aspect_def Let_def od again by (simp add: shell_ok_def)
  have "prepare_inputs no_download shell_ok full_config hole_fs =
     (Inr (''dem.tif'', ''wd''), snd (compute_slope_aspect shell_ok ''dem.tif'' ''wd'' ?F))"
    unfolding prepare_inputs_def Let_def bind_err_def items sum.case folders
    by (simp split: prod.splits)
  then show ?thesis unfolding slope .
qed


text \<open>
  What this means on a DEM whose centre cell holds the configured sentinel: the run writes a
  curvature raster with a defined value at the centre, where the same function called
  with the sentinel gives NaN.
\<close>

lemma configured_sentinel_unused:
  "\<exists>fs' t v. run_micropezzomet_terrain no_download shell_ok full_config hole_fs = (None, fs') \<and>
      fs_files fs' ''wd/inputs/dem/curvature.tif'' = Some (GeoTiff t) \<and>
      band t ! 1 ! 1 = Some v"
proof -
  let ?F = "hole_fs\<lparr>fs_dirs := {''wd'', ''wd/inputs'', ''wd/inputs/climate'', ''wd/inputs/dem'', ''wd/outputs''}\<rparr>"
  let ?src = "flat_tif\<lparr>band := hole_dem\<rparr>"
  obtain v where cv: "curvature_raster hole_dem (north_up 1000) 1000 None =
      Inr [[None, None, None], [None, Some v, None], [None, None, None]]"
    using hole_dem_unmasked by blast
  have mk: "makedirs ''wd/inputs/dem'' ?F = ?F"
    by (rule makedirs_present) simp
  have ex: "\<not> path_exists ?F ''wd/inputs/dem/curvature.tif''"
    by (simp add: path_exists_def hole_fs_def)
  have rd: "fs_files ?F ''dem.tif'' = Some (GeoTiff ?src)"
    by (simp add: hole_fs_def)
  have cv': "curvature_raster (band ?src) (transform ?src) 1000 None =
      Inr [[None, None, None], [None, Some v, None], [None, None, None]]"
    using cv by (simp add: flat_tif_def)
  have c: "compute_topographic_curvature ?F ''dem.tif'' ''wd'' 1000 None =
     (Inr ''wd/inputs/dem/curvature.tif'',
      ?F\<lparr>fs_files := (fs_files ?F)(''wd/inputs/dem/curvature.tif'' \<mapsto>
        GeoTiff (?src\<lparr>band := [[None, None, None], [None, Some v, None], [None, None, None]],
                       dtype := ''float32'', band_count := 1\<rparr>))\<rparr>)"
    unfolding compute_topographic_curvature_def Let_def wd_paths mk
    by (simp only: ex if_False rd option.case content.case cv' sum.case)
  have "run_micropezzomet_terrain no_download shell_ok full_config hole_fs =
     (None, ?F\<lparr>fs_files := (fs_files ?F)(''wd/inputs/dem/curvature.tif'' \<mapsto>
        GeoTiff (?src\<lparr>band := [[None, None, None], [None, Some v, None], [None, None, None]],
                       dtype := ''float32'', band_count := 1\<rparr>))\<rparr>)"
    unfolding run_micropezzomet_terrain_def hole_prepare by (simp add: c)
  then show ?thesis by simp
qed

end
